theory Spec2Isabelle
  imports Main "HOL-Library.Word"
begin

section \<open>JavaScript values and exceptions\<close>

text \<open>
  The portfolio site is JavaScript running in a browser. Strings are modelled as
  \<^typ>\<open>string\<close>, so a code unit is one of the 256 values of \<^typ>\<open>char\<close>.
  \<open>jsval\<close> has the values the embedded code distinguishes: a number is kept as the
  decimal \<open>m * 10 ^ e\<close> (\<open>JNum m e\<close>), an object or array as \<open>JObject\<close> (its
  contents are used nowhere), and a string with a code unit above 255 as \<open>JWideStr\<close>.
  Console output and timers are not modelled.
\<close>

datatype jsval =
  JUndefined | JNull | JBool bool | JNum int int | JStr string | JWideStr | JObject

datatype exn = SecurityError | QuotaExceededError | SyntaxError | TypeError

text \<open>
  ToBoolean, as \<open>&&\<close>, \<open>||\<close> and \<open>?:\<close> apply it. The decimal \<open>m * 10 ^ e\<close> stands for
  the double nearest to it, which is zero when the decimal is at most \<open>2 ^ -1075\<close> in
  absolute value, half of the least positive double.
\<close>

fun truthy :: "jsval \<Rightarrow> bool" where
  "truthy JUndefined = False"
| "truthy JNull = False"
| "truthy (JBool b) = b"
| "truthy (JNum m e) =
     (if e \<ge> 0 then m \<noteq> 0 else \<bar>m\<bar> * 2 ^ 1075 > 10 ^ nat (- e))"
| "truthy (JStr s) = (s \<noteq> [])"
| "truthy JWideStr = True"
| "truthy JObject = True"

section \<open>JSON.stringify and JSON.parse (host built-ins)\<close>

text \<open>
  \<open>Storage.set\<close> and \<open>Storage.get\<close> (assets/js/utils.js) pass every value through
  \<open>JSON.stringify\<close> and \<open>JSON.parse\<close>. \<open>JSON_stringify\<close> is the built-in on a string
  argument (QuoteJSONString of ECMA-262): the string between double quotes, with the
  quote, the backslash and the control characters escaped.
\<close>

definition hex_digit :: "nat \<Rightarrow> char" where
  "hex_digit d = (if d < 10 then char_of (48 + d) else char_of (87 + d))"

definition quote_char :: "char \<Rightarrow> string" where
  "quote_char c =
     (if c = CHR 0x08 then [CHR 0x5C, CHR ''b'']
      else if c = CHR 0x09 then [CHR 0x5C, CHR ''t'']
      else if c = CHR 0x0A then [CHR 0x5C, CHR ''n'']
      else if c = CHR 0x0C then [CHR 0x5C, CHR ''f'']
      else if c = CHR 0x0D then [CHR 0x5C, CHR ''r'']
      else if c = CHR 0x22 then [CHR 0x5C, CHR 0x22]
      else if c = CHR 0x5C then [CHR 0x5C, CHR 0x5C]
      else if (of_char c :: nat) < 32
        then [CHR 0x5C, CHR ''u'', CHR ''0'', CHR ''0'',
              hex_digit (of_char c div 16), hex_digit (of_char c mod 16)]
      else [c])"

definition JSON_stringify :: "string \<Rightarrow> string" where
  "JSON_stringify s = CHR 0x22 # concat (map quote_char s) @ [CHR 0x22]"

text \<open>
  \<open>JSON_parse\<close> is a recursive-descent parser of the JSON grammar; \<open>Inl SyntaxError\<close>
  is the exception the built-in throws on any other text. The first argument of
  \<open>parse_value\<close>, \<open>parse_elements\<close> and \<open>parse_members\<close> bounds the number of
  nested calls; \<open>JSON_parse\<close> starts it at \<open>2 * length raw + 2\<close>, and a text has
  fewer nested calls than twice its length, each being preceded by a character read.
\<close>

definition is_ws :: "char \<Rightarrow> bool" where
  "is_ws c = (c = CHR 0x20 \<or> c = CHR 0x09 \<or> c = CHR 0x0A \<or> c = CHR 0x0D)"

definition skip_ws :: "string \<Rightarrow> string" where
  "skip_ws cs = dropWhile is_ws cs"

definition is_digit :: "char \<Rightarrow> bool" where
  "is_digit c = (48 \<le> (of_char c :: nat) \<and> (of_char c :: nat) \<le> 57)"

definition hex_val :: "char \<Rightarrow> nat option" where
  "hex_val c =
     (let n = (of_char c :: nat) in
      if 48 \<le> n \<and> n \<le> 57 then Some (n - 48)
      else if 65 \<le> n \<and> n \<le> 70 then Some (n - 55)
      else if 97 \<le> n \<and> n \<le> 102 then Some (n - 87)
      else None)"

definition simple_escape :: "char \<Rightarrow> nat option" where
  "simple_escape c =
     (if c = CHR 0x22 then Some 34
      else if c = CHR 0x5C then Some 92
      else if c = CHR ''/'' then Some 47
      else if c = CHR ''b'' then Some 8
      else if c = CHR ''f'' then Some 12
      else if c = CHR ''n'' then Some 10
      else if c = CHR ''r'' then Some 13
      else if c = CHR ''t'' then Some 9
      else None)"

text \<open>
  The characters of a string literal after its opening quote: the code units it
  denotes (in reverse, in the accumulator) and the text after the closing quote.
\<close>

datatype scan_mode = SNormal | SEscape | SHex nat nat

fun scan_string :: "scan_mode \<Rightarrow> nat list \<Rightarrow> string \<Rightarrow> (nat list \<times> string) option" where
  "scan_string m acc [] = None"
| "scan_string SNormal acc (c # cs) =
     (if c = CHR 0x22 then Some (rev acc, cs)
      else if c = CHR 0x5C then scan_string SEscape acc cs
      else if (of_char c :: nat) < 32 then None
      else scan_string SNormal (of_char c # acc) cs)"
| "scan_string SEscape acc (c # cs) =
     (if c = CHR ''u'' then scan_string (SHex 4 0) acc cs
      else (case simple_escape c of
              None \<Rightarrow> None
            | Some u \<Rightarrow> scan_string SNormal (u # acc) cs))"
| "scan_string (SHex k v) acc (c # cs) =
     (case hex_val c of
        None \<Rightarrow> None
      | Some d \<Rightarrow>
          if k \<le> 1 then scan_string SNormal ((16 * v + d) # acc) cs
          else scan_string (SHex (k - 1) (16 * v + d)) acc cs)"

definition string_value :: "nat list \<Rightarrow> jsval" where
  "string_value us = (if list_all (\<lambda>u. u < 256) us then JStr (map char_of us) else JWideStr)"

definition digits_val :: "string \<Rightarrow> nat" where
  "digits_val ds = foldl (\<lambda>a c. 10 * a + (of_char c - 48)) 0 ds"

text \<open>
  A number: \<open>-? (0 | [1-9][0-9]*) (. [0-9]+)? ([eE] [+-]? [0-9]+)?\<close>.
\<close>

definition scan_number :: "string \<Rightarrow> (jsval \<times> string) option" where
  "scan_number cs =
     (let neg = (cs \<noteq> [] \<and> hd cs = CHR ''-'');
          cs1 = (if neg then tl cs else cs);
          ds = takeWhile is_digit cs1;
          cs2 = dropWhile is_digit cs1;
          has_frac = (cs2 \<noteq> [] \<and> hd cs2 = CHR ''.'');
          fs = (if has_frac then takeWhile is_digit (tl cs2) else []);
          cs3 = (if has_frac then dropWhile is_digit (tl cs2) else cs2);
          has_exp = (cs3 \<noteq> [] \<and> (hd cs3 = CHR ''e'' \<or> hd cs3 = CHR ''E''));
          cs4 = (if has_exp then tl cs3 else cs3);
          eneg = (has_exp \<and> cs4 \<noteq> [] \<and> hd cs4 = CHR ''-'');
          cs5 = (if has_exp \<and> cs4 \<noteq> [] \<and> (hd cs4 = CHR ''-'' \<or> hd cs4 = CHR ''+'')
                 then tl cs4 else cs4);
          es = (if has_exp then takeWhile is_digit cs5 else []);
          cs6 = (if has_exp then dropWhile is_digit cs5 else cs3);
          m = int (digits_val (ds @ fs));
          e = int (digits_val es)
      in if ds = [] \<or> (hd ds = CHR ''0'' \<and> length ds > 1) then None
         else if has_frac \<and> fs = [] then None
         else if has_exp \<and> es = [] then None
         else Some (JNum (if neg then - m else m)
                         ((if eneg then - e else e) - int (length fs)), cs6))"

fun parse_value :: "nat \<Rightarrow> string \<Rightarrow> (jsval \<times> string) option"
  and parse_elements :: "nat \<Rightarrow> string \<Rightarrow> string option"
  and parse_members :: "nat \<Rightarrow> string \<Rightarrow> string option" where
  "parse_value 0 cs = None"
| "parse_value (Suc n) [] = None"
| "parse_value (Suc n) (c # cs) =
     (if c = CHR 0x22 then
        (case scan_string SNormal [] cs of
           None \<Rightarrow> None
         | Some (us, rest) \<Rightarrow> Some (string_value us, rest))
      else if c = CHR ''['' then
        (if skip_ws cs \<noteq> [] \<and> hd (skip_ws cs) = CHR '']''
         then Some (JObject, tl (skip_ws cs))
         else (case parse_elements n cs of
                 None \<Rightarrow> None
               | Some rest \<Rightarrow> Some (JObject, rest)))
      else if c = CHR ''{'' then
        (if skip_ws cs \<noteq> [] \<and> hd (skip_ws cs) = CHR ''}''
         then Some (JObject, tl (skip_ws cs))
         else (case parse_members n cs of
                 None \<Rightarrow> None
               | Some rest \<Rightarrow> Some (JObject, rest)))
      else if take 4 (c # cs) = ''true'' then Some (JBool True, drop 4 (c # cs))
      else if take 5 (c # cs) = ''false'' then Some (JBool False, drop 5 (c # cs))
      else if take 4 (c # cs) = ''null'' then Some (JNull, drop 4 (c # cs))
      else scan_number (c # cs))"
| "parse_elements 0 cs = None"
| "parse_elements (Suc n) cs =
     (case parse_value n (skip_ws cs) of
        None \<Rightarrow> None
      | Some (v, rest) \<Rightarrow>
          (case skip_ws rest of
             [] \<Rightarrow> None
           | d # rest' \<Rightarrow>
               if d = CHR '','' then parse_elements n rest'
               else if d = CHR '']'' then Some rest'
               else None))"
| "parse_members 0 cs = None"
| "parse_members (Suc n) cs =
     (case skip_ws cs of
        [] \<Rightarrow> None
      | q # r \<Rightarrow>
          if q \<noteq> CHR 0x22 then None
          else (case scan_string SNormal [] r of
                  None \<Rightarrow> None
                | Some (k, r1) \<Rightarrow>
                    (case skip_ws r1 of
                       [] \<Rightarrow> None
                     | col # r2 \<Rightarrow>
                         if col \<noteq> CHR '':'' then None
                         else (case parse_value n (skip_ws r2) of
                                 None \<Rightarrow> None
                               | Some (v, r3) \<Rightarrow>
                                   (case skip_ws r3 of
                                      [] \<Rightarrow> None
                                    | d # r4 \<Rightarrow>
                                        if d = CHR '','' then parse_members n r4
                                        else if d = CHR ''}'' then Some r4
                                        else None)))))"

definition JSON_parse :: "string \<Rightarrow> exn + jsval" where
  "JSON_parse raw =
     (case parse_value (2 * length raw + 2) (skip_ws raw) of
        None \<Rightarrow> Inl SyntaxError
      | Some (v, rest) \<Rightarrow> if skip_ws rest = [] then Inr v else Inl SyntaxError)"

section \<open>The preference store (assets/js/utils.js, Storage)\<close>

text \<open>
  \<open>localStorage\<close> is the browser's key-value store of strings. Reading it throws
  when the origin is denied storage (\<open>readable\<close> is false) and writing throws when
  the quota is exhausted or storage is disabled (\<open>writable\<close> is false).
\<close>

record localStorage =
  items :: "string \<rightharpoonup> string"
  readable :: bool
  writable :: bool

definition getItem :: "localStorage \<Rightarrow> string \<Rightarrow> exn + string option" where
  "getItem ls key = (if readable ls then Inr (items ls key) else Inl SecurityError)"

definition setItem :: "localStorage \<Rightarrow> string \<Rightarrow> string \<Rightarrow> exn + localStorage" where
  "setItem ls key v =
     (if writable ls then Inr (ls\<lparr>items := (items ls)(key \<mapsto> v)\<rparr>)
      else Inl QuotaExceededError)"

text \<open>
  \<open>Storage.get(key, fallback)\<close>: the inner \<open>case\<close> is the body of the \<open>try\<close>, the
  outer one the \<open>catch\<close>. An absent item and the empty string are falsy.
\<close>

definition Storage_get :: "localStorage \<Rightarrow> string \<Rightarrow> jsval \<Rightarrow> exn + jsval" where
  "Storage_get ls key fallback =
     (case (case getItem ls key of
              Inl e \<Rightarrow> Inl e
            | Inr item \<Rightarrow>
                (case item of
                   None \<Rightarrow> Inr fallback
                 | Some s \<Rightarrow> if s \<noteq> [] then JSON_parse s else Inr fallback))
      of Inl error \<Rightarrow> Inr fallback
       | Inr v \<Rightarrow> Inr v)"

text \<open>
  \<open>Storage.set(key, value)\<close> on a string value: the value returned is the success
  flag, with the store as the call leaves it.
\<close>

definition Storage_set ::
    "localStorage \<Rightarrow> string \<Rightarrow> string \<Rightarrow> exn + (bool \<times> localStorage)" where
  "Storage_set ls key v =
     (case setItem ls key (JSON_stringify v) of
        Inl error \<Rightarrow> Inr (False, ls)
      | Inr ls' \<Rightarrow> Inr (True, ls'))"

section \<open>The theme manager (assets/js/theme.js, class ThemeManager)\<close>

abbreviation THEMES_LIGHT :: string where "THEMES_LIGHT \<equiv> ''light''"
abbreviation THEMES_DARK :: string where "THEMES_DARK \<equiv> ''dark''"
abbreviation THEMES_SYSTEM :: string where "THEMES_SYSTEM \<equiv> ''system''"
abbreviation STORAGE_KEY :: string where "STORAGE_KEY \<equiv> ''portfolio-theme''"

text \<open>\<open>Object.values(this.THEMES)\<close>, and its \<open>includes\<close>.\<close>

definition THEMES_values :: "jsval list" where
  "THEMES_values = [JStr THEMES_LIGHT, JStr THEMES_DARK, JStr THEMES_SYSTEM]"

definition THEMES_includes :: "jsval \<Rightarrow> bool" where
  "THEMES_includes v = (v \<in> set THEMES_values)"

text \<open>
  The toggle button, when the page has one: whether it holds an \<open>i\<close> element, that
  element's class name, the button's \<open>aria-label\<close> and its \<open>theme-switching\<close> class.
\<close>

record toggle_button =
  has_icon :: bool
  icon_className :: string
  aria_label :: string
  switching :: bool

text \<open>
  The manager's field \<open>currentTheme\<close> together with what it reads and writes: the
  store, the ambient scheme (\<open>prefersDark\<close> is
  \<open>matchMedia('(prefers-color-scheme: dark)').matches\<close>), the reduced-motion setting,
  and the document. The fields of the document hold the values handed to
  \<open>classList.add\<close> and \<open>setAttribute\<close>; \<open>meta_theme_color\<close> is \<open>None\<close> while the
  page has no \<open>meta[name="theme-color"]\<close>. \<open>emitted\<close> lists the \<open>themeChanged\<close>
  events as (theme, effective).
\<close>

record theme_world =
  currentTheme :: jsval
  storage :: localStorage
  prefersDark :: bool
  prefersReducedMotion :: bool
  html_classes :: "jsval list"
  data_theme :: "jsval option"
  meta_theme_color :: "jsval option"
  button :: "toggle_button option"
  body_transitioning :: bool
  emitted :: "(jsval \<times> jsval) list"

definition setupToggleButton :: "theme_world \<Rightarrow> theme_world" where
  "setupToggleButton w =
     (case button w of
        None \<Rightarrow> w
      | Some b \<Rightarrow> w\<lparr>button := Some (b\<lparr>aria_label := ''Toggle theme''\<rparr>)\<rparr>)"

definition loadSavedTheme :: "theme_world \<Rightarrow> exn + theme_world" where
  "loadSavedTheme w =
     (case Storage_get (storage w) STORAGE_KEY JNull of
        Inl e \<Rightarrow> Inl e
      | Inr savedTheme \<Rightarrow>
          if truthy savedTheme \<and> THEMES_includes savedTheme
          then Inr (w\<lparr>currentTheme := savedTheme\<rparr>)
          else Inr (w\<lparr>currentTheme := JStr THEMES_SYSTEM\<rparr>))"

definition getEffectiveTheme :: "theme_world \<Rightarrow> jsval" where
  "getEffectiveTheme w =
     (if currentTheme w = JStr THEMES_SYSTEM
      then (if prefersDark w then JStr THEMES_DARK else JStr THEMES_LIGHT)
      else currentTheme w)"

definition updateToggleButton :: "jsval \<Rightarrow> toggle_button option \<Rightarrow> toggle_button option" where
  "updateToggleButton effectiveTheme bo =
     (case bo of
        None \<Rightarrow> None
      | Some b \<Rightarrow>
          if \<not> has_icon b then Some b
          else Some (b\<lparr>icon_className :=
                          (if effectiveTheme = JStr THEMES_DARK then ''fas fa-sun''
                           else ''fas fa-moon''),
                        aria_label :=
                          ''Switch to '' @
                          (if effectiveTheme = JStr THEMES_DARK then ''light'' else ''dark'') @
                          '' theme'',
                        switching := True\<rparr>))"

text \<open>The lookup \<open>colors[effectiveTheme]\<close> of \<open>updateMetaThemeColor\<close>.\<close>

definition colors :: "jsval \<Rightarrow> jsval" where
  "colors effectiveTheme =
     (if effectiveTheme = JStr THEMES_LIGHT then JStr ''#ffffff''
      else if effectiveTheme = JStr THEMES_DARK then JStr ''#1a1a1a''
      else JUndefined)"

definition applyTheme :: "theme_world \<Rightarrow> theme_world" where
  "applyTheme w =
     (let effectiveTheme = getEffectiveTheme w;
          removed = filter (\<lambda>c. c \<noteq> JStr ''light'' \<and> c \<noteq> JStr ''dark'') (html_classes w)
      in w\<lparr>html_classes :=
              (if effectiveTheme \<in> set removed then removed else removed @ [effectiveTheme]),
            data_theme := Some effectiveTheme,
            button := updateToggleButton effectiveTheme (button w),
            meta_theme_color := Some (colors effectiveTheme),
            emitted := emitted w @ [(currentTheme w, effectiveTheme)]\<rparr>)"

definition animateThemeChange :: "theme_world \<Rightarrow> theme_world" where
  "animateThemeChange w = w\<lparr>body_transitioning := True\<rparr>"

text \<open>
  \<open>setTheme(theme)\<close>. \<open>includes\<close> compares with SameValueZero, so only a string can be
  among \<open>Object.values(this.THEMES)\<close>: the second equation is the guard's early return
  on every other value.
\<close>

fun setTheme :: "jsval \<Rightarrow> theme_world \<Rightarrow> exn + theme_world" where
  "setTheme (JStr theme) w =
     (if \<not> THEMES_includes (JStr theme) then Inr w
      else
        (case Storage_set (storage w) STORAGE_KEY theme of
           Inl e \<Rightarrow> Inl e
         | Inr (ok, ls) \<Rightarrow>
             (let w1 = applyTheme (w\<lparr>currentTheme := JStr theme, storage := ls\<rparr>)
              in Inr (if \<not> prefersReducedMotion w1 then animateThemeChange w1 else w1))))"
| "setTheme theme w = Inr w"

definition toggle :: "theme_world \<Rightarrow> exn + theme_world" where
  "toggle w =
     (let effectiveTheme = getEffectiveTheme w;
          nextTheme = (if effectiveTheme = JStr THEMES_DARK then JStr THEMES_LIGHT
                       else JStr THEMES_DARK)
      in setTheme nextTheme w)"

definition reset :: "theme_world \<Rightarrow> exn + theme_world" where
  "reset w = setTheme (JStr THEMES_SYSTEM) w"

text \<open>\<open>init()\<close>: the steps of the constructor that touch the state above.\<close>

definition init :: "theme_world \<Rightarrow> exn + theme_world" where
  "init w =
     (case loadSavedTheme (setupToggleButton w) of
        Inl e \<Rightarrow> Inl e
      | Inr w1 \<Rightarrow> Inr (applyTheme w1))"

text \<open>
  Everything that acts on the manager, as one transition per operation: the
  constructor's \<open>init\<close>; \<open>toggle\<close> (a click or Enter/Space on the button, the keyboard
  shortcut, or a direct call); \<open>setTheme\<close> and \<open>reset\<close>; and the listeners of
  \<open>setupEventListeners\<close> for a change of the ambient scheme (the operation carries the
  new value) and for the tab becoming visible, which re-apply only while the
  preference is \<open>system\<close>.
\<close>

datatype theme_op = Init | Toggle | SetTheme jsval | Reset | SchemeChange bool | Visible

fun theme_step :: "theme_op \<Rightarrow> theme_world \<Rightarrow> exn + theme_world" where
  "theme_step Init w = init w"
| "theme_step Toggle w = toggle w"
| "theme_step (SetTheme v) w = setTheme v w"
| "theme_step Reset w = reset w"
| "theme_step (SchemeChange d) w =
     (let w1 = w\<lparr>prefersDark := d\<rparr>
      in if currentTheme w1 = JStr THEMES_SYSTEM then Inr (applyTheme w1) else Inr w1)"
| "theme_step Visible w =
     (if currentTheme w = JStr THEMES_SYSTEM then Inr (applyTheme w) else Inr w)"

fun theme_run :: "theme_op list \<Rightarrow> theme_world \<Rightarrow> exn + theme_world" where
  "theme_run [] w = Inr w"
| "theme_run (op # ops) w =
     (case theme_step op w of
        Inl e \<Rightarrow> Inl e
      | Inr w1 \<Rightarrow> theme_run ops w1)"

text \<open>
  A page as the constructor finds it: the given store and ambient scheme, no theme
  class on the root element, and a toggle button with its icon.
\<close>

definition page :: "localStorage \<Rightarrow> bool \<Rightarrow> theme_world" where
  "page ls ambient =
     \<lparr>currentTheme = JNull, storage = ls, prefersDark = ambient,
      prefersReducedMotion = False, html_classes = [], data_theme = None,
      meta_theme_color = None,
      button = Some \<lparr>has_icon = True, icon_className = ''fas fa-moon'',
                      aria_label = [], switching = False\<rparr>,
      body_transitioning = False, emitted = []\<rparr>"

definition store_of :: "(string \<times> string) list \<Rightarrow> localStorage" where
  "store_of kvs = \<lparr>items = map_of kvs, readable = True, writable = True\<rparr>"

text \<open>
  What an operation leaves behind, read off its result: the raw string under the
  manager's key, and the preference. Both are \<open>None\<close> if the operation threw.
\<close>

definition stored_entry :: "exn + theme_world \<Rightarrow> string option" where
  "stored_entry r = (case r of Inl e \<Rightarrow> None | Inr w \<Rightarrow> items (storage w) STORAGE_KEY)"

definition preference_of :: "exn + theme_world \<Rightarrow> jsval option" where
  "preference_of r = (case r of Inl e \<Rightarrow> None | Inr w \<Rightarrow> Some (currentTheme w))"

section \<open>The flat theme script (script.js)\<close>

text \<open>
  \<open>script.js\<close> is the older variant of the theme switch. It has no \<open>system\<close>
  preference and calls \<open>localStorage\<close> directly, under the key \<open>theme\<close>, outside any
  \<open>try\<close>. Its state is whether the root element has the class \<open>dark\<close>, the class
  name of the toggle's icon (the toggle and its icon are taken to exist) and the
  store.
\<close>

record script_page =
  html_dark :: bool
  themeIcon_className :: string
  script_storage :: localStorage

definition updateThemeIcon :: "string \<Rightarrow> string" where
  "updateThemeIcon theme = (if theme = ''dark'' then ''fas fa-sun'' else ''fas fa-moon'')"

text \<open>The statements run when the script loads: \<open>getItem('theme') || 'light'\<close>.\<close>

definition script_load :: "script_page \<Rightarrow> exn + script_page" where
  "script_load p =
     (case getItem (script_storage p) ''theme'' of
        Inl e \<Rightarrow> Inl e
      | Inr item \<Rightarrow>
          (let savedTheme = (case item of
                              None \<Rightarrow> ''light''
                            | Some s \<Rightarrow> if s \<noteq> [] then s else ''light'')
           in Inr (p\<lparr>html_dark := (savedTheme = ''dark''),
                     themeIcon_className := updateThemeIcon savedTheme\<rparr>)))"

text \<open>
  The click listener of the toggle. When \<open>setItem\<close> throws, the class has been
  toggled already; the model keeps the exception only.
\<close>

definition script_click :: "script_page \<Rightarrow> exn + script_page" where
  "script_click p =
     (let isDark = html_dark p;
          newTheme = (if isDark then ''light'' else ''dark'')
      in case setItem (script_storage p) ''theme'' newTheme of
           Inl e \<Rightarrow> Inl e
         | Inr ls \<Rightarrow>
             Inr (p\<lparr>html_dark := \<not> isDark, script_storage := ls,
                    themeIcon_className := updateThemeIcon newTheme\<rparr>))"

section \<open>The navigation manager (assets/js/navigation.js, class NavigationManager)\<close>

text \<open>
  A section as \<open>cacheElements\<close> builds it: its id, its element (of which only
  \<open>offsetTop\<close> and \<open>offsetHeight\<close> are read) and its link, named by the link's
  position in \<open>navLinks\<close>. Pixel offsets are integers.
\<close>

record element =
  offsetTop :: int
  offsetHeight :: int

record nav_section =
  sid :: string
  element :: "element option"
  link :: nat

text \<open>
  The manager's state: the sections, the links that carry the class \<open>active\<close>, the
  flag an animated scroll sets, and the active section. A section object is named by
  its index in \<open>sections\<close>, so that \<open>===\<close> on sections is equality of indices.
\<close>

record nav_state =
  sections :: "nav_section list"
  active_links :: "nat set"
  isScrolling :: bool
  currentActiveSection :: "nat option"

abbreviation headerOffset :: int where "headerOffset \<equiv> 80"

text \<open>
  \<open>cacheElements\<close>: one section per navigation link, in the order of the links, and
  only those whose target element exists.
\<close>

definition cacheElements :: "nav_section list \<Rightarrow> nav_section list" where
  "cacheElements candidates = filter (\<lambda>s. element s \<noteq> None) candidates"

text \<open>The test of the loop: "Check if we're in this section".\<close>

definition in_section :: "element \<Rightarrow> int \<Rightarrow> bool" where
  "in_section el scrollPosition =
     (let sectionTop = offsetTop el;
          sectionHeight = offsetHeight el;
          sectionBottom = sectionTop + sectionHeight
      in scrollPosition \<ge> sectionTop - 100 \<and> scrollPosition \<le> sectionBottom)"

text \<open>
  The loop \<open>for (let i = sections.length - 1; i >= 0; i--)\<close>; the counter of the
  model is \<open>i + 1\<close>, and the loop starts it at \<open>length secs\<close>.
\<close>

fun find_active :: "nav_section list \<Rightarrow> int \<Rightarrow> nat \<Rightarrow> nat option" where
  "find_active secs scrollPosition 0 = None"
| "find_active secs scrollPosition (Suc i) =
     (case element (secs ! i) of
        None \<Rightarrow> find_active secs scrollPosition i
      | Some el \<Rightarrow>
          if in_section el scrollPosition then Some i
          else find_active secs scrollPosition i)"

definition updateActiveLinks :: "nav_state \<Rightarrow> nat option \<Rightarrow> nav_state" where
  "updateActiveLinks st activeSection =
     (if activeSection = currentActiveSection st then st
      else st\<lparr>active_links :=
                (case activeSection of
                   None \<Rightarrow> {}
                 | Some i \<Rightarrow> {link (sections st ! i)}),
              currentActiveSection := activeSection\<rparr>)"

text \<open>
  The callback that \<open>Events.throttle\<close> wraps, run with the page's scroll offset
  \<open>window.pageYOffset\<close>.
\<close>

definition updateActiveSection :: "nav_state \<Rightarrow> int \<Rightarrow> nav_state" where
  "updateActiveSection st pageYOffset =
     (if isScrolling st then st
      else
        (let scrollPosition = pageYOffset + headerOffset;
             activeSection = find_active (sections st) scrollPosition (length (sections st))
         in updateActiveLinks st activeSection))"

text \<open>A page with the one section \<open>about\<close>, 100 pixels high at the top of the document.\<close>

definition one_section_page :: nav_state where
  "one_section_page =
     \<lparr>sections = cacheElements
        [\<lparr>sid = ''about'', element = Some \<lparr>offsetTop = 0, offsetHeight = 100\<rparr>, link = 0\<rparr>],
      active_links = {}, isScrolling = False, currentActiveSection = None\<rparr>"

text \<open>
  Three sections, each 400 pixels high, with a gap between the second and the third:
  \<open>home\<close> at 0, \<open>about\<close> at 400 and \<open>contact\<close> at 1200.
\<close>

definition three_section_page :: nav_state where
  "three_section_page =
     \<lparr>sections = cacheElements
        [\<lparr>sid = ''home'', element = Some \<lparr>offsetTop = 0, offsetHeight = 400\<rparr>, link = 0\<rparr>,
         \<lparr>sid = ''about'', element = Some \<lparr>offsetTop = 400, offsetHeight = 400\<rparr>, link = 1\<rparr>,
         \<lparr>sid = ''contact'', element = Some \<lparr>offsetTop = 1200, offsetHeight = 400\<rparr>, link = 2\<rparr>],
      active_links = {}, isScrolling = False, currentActiveSection = None\<rparr>"

section \<open>The validators (assets/js/utils.js, Validation)\<close>

text \<open>
  The white space of \<open>String.prototype.trim\<close> and of \<open>\s\<close> in a regular expression,
  among the 256 code units modelled: tab, line feed, vertical tab, form feed,
  carriage return, space and no-break space.
\<close>

definition js_whitespace :: "char \<Rightarrow> bool" where
  "js_whitespace c =
     (c = CHR 0x09 \<or> c = CHR 0x0A \<or> c = CHR 0x0B \<or> c = CHR 0x0C \<or> c = CHR 0x0D \<or>
      c = CHR 0x20 \<or> c = CHR 0xA0)"

definition String_trim :: "string \<Rightarrow> string" where
  "String_trim s = rev (dropWhile js_whitespace (rev (dropWhile js_whitespace s)))"

text \<open>
  \<open>isEmail\<close> tests \<open>/^[^\s@]+@[^\s@]+\.[^\s@]+$/\<close>: no white space, exactly one \<open>@\<close>
  with a non-empty part before it, and after it a dot that is neither the first nor
  the last character.
\<close>

definition isEmail :: "string \<Rightarrow> bool" where
  "isEmail email =
     (let local = takeWhile (\<lambda>c. c \<noteq> CHR ''@'') email;
          rest = dropWhile (\<lambda>c. c \<noteq> CHR ''@'') email;
          domain = tl rest
      in local \<noteq> [] \<and> rest \<noteq> [] \<and> CHR ''@'' \<notin> set domain \<and>
         \<not> list_ex js_whitespace email \<and> CHR ''.'' \<in> set (butlast (tl domain)))"

text \<open>
  \<open>isPhone\<close> removes white space, hyphens and parentheses and tests
  \<open>/^[\+]?[1-9][\d]{0,15}$/\<close>.
\<close>

definition isPhone :: "string \<Rightarrow> bool" where
  "isPhone phone =
     (let s = filter (\<lambda>c. \<not> (js_whitespace c \<or> c = CHR ''-'' \<or> c = CHR ''('' \<or> c = CHR '')''))
                phone;
          t = (if s \<noteq> [] \<and> hd s = CHR ''+'' then tl s else s)
      in t \<noteq> [] \<and> is_digit (hd t) \<and> hd t \<noteq> CHR ''0'' \<and>
         list_all is_digit (tl t) \<and> length (tl t) \<le> 15)"

definition isNotEmpty :: "string \<Rightarrow> bool" where
  "isNotEmpty str = (length (String_trim str) > 0)"

text \<open>
  \<open>minLength\<close> and \<open>maxLength\<close> compare with their second argument; when it is
  \<open>undefined\<close> (\<open>None\<close>) both comparisons are false. A parameter of a rule is a
  non-negative integer below \<open>2 ^ 32\<close> (the repository's rules have 2 and 10).
\<close>

definition Validation_minLength :: "string \<Rightarrow> 32 word option \<Rightarrow> bool" where
  "Validation_minLength str len = (case len of None \<Rightarrow> False | Some n \<Rightarrow> length str \<ge> unat n)"

definition Validation_maxLength :: "string \<Rightarrow> 32 word option \<Rightarrow> bool" where
  "Validation_maxLength str len = (case len of None \<Rightarrow> False | Some n \<Rightarrow> length str \<le> unat n)"

section \<open>The form manager (assets/js/forms.js, class FormManager)\<close>

text \<open>
  \<open>this.defaultRules\<close> and \<open>config.validationRules\<close> are objects read with
  \<open>obj[name]\<close>; their prototype is taken to be \<open>Object.prototype\<close>, with the
  properties the language gives it. Such a read gives the value of an own key;
  else, for a name that \<open>Object.prototype\<close> defines, the inherited property, which
  is truthy (a function, and for \<open>__proto__\<close> the prototype object) and is neither
  a validator nor iterable; else \<open>undefined\<close>.
\<close>

definition Object_prototype_names :: "string list" where
  "Object_prototype_names =
     [''constructor'', ''__defineGetter__'', ''__defineSetter__'', ''hasOwnProperty'',
      ''__lookupGetter__'', ''__lookupSetter__'', ''isPrototypeOf'', ''propertyIsEnumerable'',
      ''toString'', ''valueOf'', ''__proto__'', ''toLocaleString'']"

datatype 'a property = Own 'a | Inherited | Absent

definition get_property :: "(string \<rightharpoonup> 'a) \<Rightarrow> string \<Rightarrow> 'a property" where
  "get_property obj name =
     (case obj name of
        Some v \<Rightarrow> Own v
      | None \<Rightarrow> if name \<in> set Object_prototype_names then Inherited else Absent)"

text \<open>
  A rule of a field's list is a string, or an object \<open>{rule, params}\<close> whose
  \<open>params\<close> is missing, one value or an array.
\<close>

datatype params = NoParams | Single "32 word" | Array "32 word list"

datatype rule = RuleName string | RuleObject string params

fun ruleName :: "rule \<Rightarrow> string" where
  "ruleName (RuleName name) = name"
| "ruleName (RuleObject name ps) = name"

text \<open>
  \<open>Array.isArray(rule.params) ? rule.params : [rule.params]\<close>, and \<open>[]\<close> for a string;
  an element \<open>None\<close> is \<open>undefined\<close>.
\<close>

fun ruleParams :: "rule \<Rightarrow> 32 word option list" where
  "ruleParams (RuleName name) = []"
| "ruleParams (RuleObject name NoParams) = [None]"
| "ruleParams (RuleObject name (Single p)) = [Some p]"
| "ruleParams (RuleObject name (Array ps)) = map Some ps"

text \<open>\<open>ruleParams[0]\<close>, and the second argument of a validator called with \<open>...ruleParams\<close>.\<close>

definition first_param :: "32 word option list \<Rightarrow> 32 word option" where
  "first_param ps = (case ps of [] \<Rightarrow> None | p # _ \<Rightarrow> p)"

record validator =
  validate :: "string \<Rightarrow> 32 word option list \<Rightarrow> bool"
  message :: string

text \<open>The own keys of \<open>this.defaultRules\<close>.\<close>

definition defaultRules :: "string \<rightharpoonup> validator" where
  "defaultRules =
     [''email'' \<mapsto> \<lparr>validate = (\<lambda>v ps. isEmail v),
                     message = ''Please enter a valid email address''\<rparr>,
      ''phone'' \<mapsto> \<lparr>validate = (\<lambda>v ps. isPhone v),
                     message = ''Please enter a valid phone number''\<rparr>,
      ''required'' \<mapsto> \<lparr>validate = (\<lambda>v ps. isNotEmpty v),
                        message = ''This field is required''\<rparr>,
      ''minLength'' \<mapsto> \<lparr>validate = (\<lambda>v ps. Validation_minLength v (first_param ps)),
                         message = ''Field is too short''\<rparr>,
      ''maxLength'' \<mapsto> \<lparr>validate = (\<lambda>v ps. Validation_maxLength v (first_param ps)),
                         message = ''Field is too long''\<rparr>]"

text \<open>The decimal digits of a number, as a template literal prints an integer below \<open>2 ^ 32\<close>.\<close>

function nat_digits :: "nat \<Rightarrow> string" where
  "nat_digits n =
     (if n < 10 then [char_of (48 + n)]
      else nat_digits (n div 10) @ [char_of (48 + n mod 10)])"
  by pat_completeness auto
termination
  by (relation "measure id") auto

definition template_value :: "32 word option \<Rightarrow> string" where
  "template_value p = (case p of None \<Rightarrow> ''undefined'' | Some n \<Rightarrow> nat_digits (unat n))"

text \<open>The message \<open>validateField\<close> reports for a failed rule.\<close>

definition failure_message :: "validator \<Rightarrow> string \<Rightarrow> 32 word option list \<Rightarrow> string" where
  "failure_message v name ps =
     (if name = ''minLength''
        then ''This field must be at least '' @ template_value (first_param ps) @ '' characters''
      else if name = ''maxLength''
        then ''This field must be at most '' @ template_value (first_param ps) @ '' characters''
      else message v)"

text \<open>
  The loop of \<open>validateField\<close> over the rules: the message of the rule that failed,
  if one did, and the rules whose \<open>validate\<close> was called, in the order of the calls.
  A name without a validator is passed over (\<open>continue\<close>); an inherited property is
  truthy and has no \<open>validate\<close>, so that the call throws a \<open>TypeError\<close>.
\<close>

fun check_rules :: "string \<Rightarrow> rule list \<Rightarrow> exn + (string option \<times> rule list)" where
  "check_rules v [] = Inr (None, [])"
| "check_rules v (r # rules) =
     (case get_property defaultRules (ruleName r) of
        Absent \<Rightarrow> check_rules v rules
      | Inherited \<Rightarrow> Inl TypeError
      | Own validator \<Rightarrow>
          if \<not> validate validator v (ruleParams r)
          then Inr (Some (failure_message validator (ruleName r) (ruleParams r)), [r])
          else (case check_rules v rules of
                  Inl e \<Rightarrow> Inl e
                | Inr (res, calls) \<Rightarrow> Inr (res, r # calls)))"

text \<open>
  An \<open>input\<close>, \<open>textarea\<close> or \<open>select\<close> element of a form: its name
  (\<open>field.name || field.id\<close>), its value, the value \<open>form.reset()\<close> gives it, and
  what \<open>setFieldError\<close> and \<open>clearFieldError\<close> write on the element itself, the
  class \<open>error\<close> and \<open>aria-invalid\<close>. The \<open>.field-error\<close> element they look up in
  the element's parent is not modelled: which element that is depends on the
  document around the form.
\<close>

record field =
  fname :: string
  fvalue :: string
  defaultValue :: string
  error_class :: bool
  aria_invalid :: bool

text \<open>
  An entry of \<open>this.forms\<close>: the own keys of \<open>config.validationRules\<close> (\<open>None\<close> when
  the configuration has none), whether \<open>config.onSubmit\<close> is given, the elements
  that \<open>registerForm\<close> found, in document order, each with its listeners, the \<open>Map\<close>
  \<open>fields\<close> from names to elements (an element is named by its position in
  \<open>elements\<close>), the \<open>Map\<close> \<open>errors\<close> from names to messages, and the number of calls
  of \<open>config.onSubmit\<close>.
\<close>

record form_entry =
  validationRules :: "(string \<rightharpoonup> rule list) option"
  has_onSubmit :: bool
  elements :: "field list"
  form_fields :: "(string \<times> nat) list"
  errors :: "string \<rightharpoonup> string"
  submit_calls :: nat

record form_manager =
  forms :: "string \<rightharpoonup> form_entry"

text \<open>\<open>Map.prototype.set\<close>: a key that is present keeps its place.\<close>

fun Map_set :: "'k \<Rightarrow> 'v \<Rightarrow> ('k \<times> 'v) list \<Rightarrow> ('k \<times> 'v) list" where
  "Map_set k v [] = [(k, v)]"
| "Map_set k v (p # ps) = (if fst p = k then (k, v) # ps else p # Map_set k v ps)"

text \<open>
  \<open>registerField\<close> for the elements from position \<open>i\<close> on: \<open>form.fields.set(fieldName,
  field)\<close>, so that of two elements with one name the later one is kept.
\<close>

fun registerFields :: "nat \<Rightarrow> field list \<Rightarrow> (string \<times> nat) list \<Rightarrow> (string \<times> nat) list" where
  "registerFields i [] fs = fs"
| "registerFields i (fld # flds) fs = registerFields (Suc i) flds (Map_set (fname fld) i fs)"

text \<open>
  \<open>registerForm(form, config)\<close> for a form with the id \<open>formId\<close> whose \<open>input\<close>,
  \<open>textarea\<close> and \<open>select\<close> elements are \<open>els\<close>, in document order; \<open>rules\<close> is
  \<open>config.validationRules\<close> and \<open>onSubmit\<close> tells whether \<open>config.onSubmit\<close> is
  given.
\<close>

definition registerForm ::
    "form_manager \<Rightarrow> string \<Rightarrow> field list \<Rightarrow> (string \<rightharpoonup> rule list) option \<Rightarrow> bool \<Rightarrow>
     form_manager" where
  "registerForm m formId els rules onSubmit =
     m\<lparr>forms := (forms m)(formId \<mapsto>
         \<lparr>validationRules = rules, has_onSubmit = onSubmit, elements = els,
          form_fields = registerFields 0 els [], errors = Map.empty, submit_calls = 0\<rparr>)\<rparr>"

text \<open>
  \<open>setFieldError\<close> and \<open>clearFieldError\<close> for the element at position \<open>i\<close> of the
  form: the entry of \<open>errors\<close> under the element's name, and the element's class and
  \<open>aria-invalid\<close>. A position past the last element stands for no element.
\<close>

definition setFieldError :: "form_manager \<Rightarrow> string \<Rightarrow> nat \<Rightarrow> string \<Rightarrow> form_manager" where
  "setFieldError m formId i msg =
     (case forms m formId of
        None \<Rightarrow> m
      | Some form \<Rightarrow>
          if i \<ge> length (elements form) then m
          else
            (let fld = elements form ! i; fieldName = fname fld
             in m\<lparr>forms := (forms m)(formId \<mapsto>
                  form\<lparr>errors := (errors form)(fieldName \<mapsto> msg),
                        elements := (elements form)
                          [i := fld\<lparr>error_class := True, aria_invalid := True\<rparr>]\<rparr>)\<rparr>))"

definition clearFieldError :: "form_manager \<Rightarrow> string \<Rightarrow> nat \<Rightarrow> form_manager" where
  "clearFieldError m formId i =
     (case forms m formId of
        None \<Rightarrow> m
      | Some form \<Rightarrow>
          if i \<ge> length (elements form) then m
          else
            (let fld = elements form ! i; fieldName = fname fld
             in m\<lparr>forms := (forms m)(formId \<mapsto>
                  form\<lparr>errors := (errors form)(fieldName := None),
                        elements := (elements form)
                          [i := fld\<lparr>error_class := False, aria_invalid := False\<rparr>]\<rparr>)\<rparr>))"

text \<open>
  \<open>validateField(formId, field)\<close> for the element at position \<open>i\<close>: an exception, or
  the value returned, the rules whose \<open>validate\<close> was called, and the manager
  afterwards. When \<open>validationRules[fieldName]\<close> is an inherited property, the
  \<open>for ... of\<close> loop throws a \<open>TypeError\<close> (it is not iterable). Nothing is written
  before an exception.
\<close>

definition validateField ::
    "form_manager \<Rightarrow> string \<Rightarrow> nat \<Rightarrow> exn + (bool \<times> rule list \<times> form_manager)" where
  "validateField m formId i =
     (case forms m formId of
        None \<Rightarrow> Inr (True, [], m)
      | Some form \<Rightarrow>
          (case validationRules form of
             None \<Rightarrow> Inr (True, [], m)
           | Some vr \<Rightarrow>
               if i \<ge> length (elements form) then Inr (True, [], m)
               else
                 (let fld = elements form ! i; fieldName = fname fld
                  in case get_property vr fieldName of
                       Absent \<Rightarrow> Inr (True, [], m)
                     | Inherited \<Rightarrow> Inl TypeError
                     | Own rules \<Rightarrow>
                         (let v = String_trim (fvalue fld)
                          in case check_rules v rules of
                               Inl e \<Rightarrow> Inl e
                             | Inr (Some msg, calls) \<Rightarrow>
                                 Inr (False, calls, setFieldError m formId i msg)
                             | Inr (None, calls) \<Rightarrow>
                                 Inr (True, calls, clearFieldError m formId i)))))"

text \<open>
  \<open>validateForm\<close>: \<open>form.fields.forEach\<close> with the flag \<open>isValid\<close>. An exception of
  \<open>validateField\<close> ends the loop and leaves what the earlier calls wrote.
\<close>

fun validate_each ::
    "form_manager \<Rightarrow> string \<Rightarrow> nat list \<Rightarrow> bool \<Rightarrow> (exn + bool) \<times> form_manager" where
  "validate_each m formId [] isValid = (Inr isValid, m)"
| "validate_each m formId (i # is) isValid =
     (case validateField m formId i of
        Inl e \<Rightarrow> (Inl e, m)
      | Inr (ok, calls, m') \<Rightarrow> validate_each m' formId is (if \<not> ok then False else isValid))"

definition validateForm :: "form_manager \<Rightarrow> string \<Rightarrow> (exn + bool) \<times> form_manager" where
  "validateForm m formId =
     (case forms m formId of
        None \<Rightarrow> (Inr False, m)
      | Some form \<Rightarrow> validate_each m formId (map snd (form_fields form)) True)"

text \<open>
  \<open>handleFormSubmit\<close> up to the call of \<open>config.onSubmit\<close>, which is counted. The
  first component is the exception, if any, that rejects the promise the function
  returns.
\<close>

definition handleFormSubmit :: "form_manager \<Rightarrow> string \<Rightarrow> exn option \<times> form_manager" where
  "handleFormSubmit m formId =
     (case forms m formId of
        None \<Rightarrow> (None, m)
      | Some form0 \<Rightarrow>
          (case validateForm m formId of
             (Inl e, m1) \<Rightarrow> (Some e, m1)
           | (Inr isValid, m1) \<Rightarrow>
               if \<not> isValid then (None, m1)
               else (case forms m1 formId of
                       None \<Rightarrow> (None, m1)
                     | Some form \<Rightarrow>
                         if has_onSubmit form
                         then (None, m1\<lparr>forms := (forms m1)(formId \<mapsto>
                                form\<lparr>submit_calls := Suc (submit_calls form)\<rparr>)\<rparr>)
                         else (None, m1))))"

text \<open>
  \<open>form.reset()\<close>, which \<open>handleContactSubmit\<close> calls on the contact form once the
  submission it waits for has gone through: every element gets its default value,
  and neither a listener of the manager runs nor \<open>errors\<close> changes.
\<close>

definition form_reset :: "form_manager \<Rightarrow> string \<Rightarrow> form_manager" where
  "form_reset m formId =
     (case forms m formId of
        None \<Rightarrow> m
      | Some form \<Rightarrow>
          m\<lparr>forms := (forms m)(formId \<mapsto>
            form\<lparr>elements := map (\<lambda>fld. fld\<lparr>fvalue := defaultValue fld\<rparr>) (elements form)\<rparr>)\<rparr>)"

text \<open>
  What happens to a manager, as one transition per event: the listeners
  \<open>registerForm\<close> installs, for \<open>submit\<close> on a form, \<open>blur\<close> on an element, and
  \<open>input\<close> on an element, which carries the value the element has when the event
  fires; and the reset of a form. The result is the exception the listener ended
  with, if any, and the manager it left. An event on a form that is not
  registered, or at a position past the last element, has no listener.
\<close>

datatype form_event =
  Submit string | Blur string nat | Input string nat string | Reset_form string

fun form_step :: "form_manager \<Rightarrow> form_event \<Rightarrow> exn option \<times> form_manager" where
  "form_step m (Submit formId) = handleFormSubmit m formId"
| "form_step m (Blur formId i) =
     (case forms m formId of
        None \<Rightarrow> (None, m)
      | Some form \<Rightarrow>
          if i \<ge> length (elements form) then (None, m)
          else (case validateField m formId i of
                  Inl e \<Rightarrow> (Some e, m)
                | Inr (ok, calls, m') \<Rightarrow> (None, m')))"
| "form_step m (Input formId i v) =
     (case forms m formId of
        None \<Rightarrow> (None, m)
      | Some form \<Rightarrow>
          if i \<ge> length (elements form) then (None, m)
          else (None, clearFieldError
                 (m\<lparr>forms := (forms m)(formId \<mapsto>
                      form\<lparr>elements := (elements form)
                              [i := (elements form ! i)\<lparr>fvalue := v\<rparr>]\<rparr>)\<rparr>)
                 formId i))"
| "form_step m (Reset_form formId) = (None, form_reset m formId)"

fun form_run :: "form_manager \<Rightarrow> form_event list \<Rightarrow> form_manager" where
  "form_run m [] = m"
| "form_run m (ev # evs) = form_run (snd (form_step m ev)) evs"

text \<open>The entry of \<open>errors\<close> under a name, and the element at a position.\<close>

definition error_of :: "form_manager \<Rightarrow> string \<Rightarrow> string \<Rightarrow> string option" where
  "error_of m formId name = (case forms m formId of None \<Rightarrow> None | Some form \<Rightarrow> errors form name)"

definition element_of :: "form_manager \<Rightarrow> string \<Rightarrow> nat \<Rightarrow> field option" where
  "element_of m formId i =
     (case forms m formId of
        None \<Rightarrow> None
      | Some form \<Rightarrow> if i < length (elements form) then Some (elements form ! i) else None)"

text \<open>
  What no event changes: the rules of a form, and the names and default values of
  its elements.
\<close>

definition form_shape ::
    "form_manager \<Rightarrow> string \<Rightarrow>
     ((string \<rightharpoonup> rule list) option \<times> (string \<times> string) list) option" where
  "form_shape m formId =
     (case forms m formId of
        None \<Rightarrow> None
      | Some form \<Rightarrow>
          Some (validationRules form,
                map (\<lambda>fld. (fname fld, defaultValue fld)) (elements form)))"

text \<open>An element with a name and a value, no default value and no error.\<close>

definition text_input :: "string \<Rightarrow> string \<Rightarrow> field" where
  "text_input name v =
     \<lparr>fname = name, fvalue = v, defaultValue = [], error_class = False, aria_invalid = False\<rparr>"

text \<open>The contact form as \<open>setupContactForm\<close> registers it, with the given field values.\<close>

definition contact_rules :: "string \<rightharpoonup> rule list" where
  "contact_rules =
     [''name'' \<mapsto> [RuleName ''required'', RuleObject ''minLength'' (Single 2)],
      ''email'' \<mapsto> [RuleName ''required'', RuleName ''email''],
      ''subject'' \<mapsto> [RuleName ''required''],
      ''message'' \<mapsto> [RuleName ''required'', RuleObject ''minLength'' (Single 10)]]"

definition contact_form :: "string \<Rightarrow> string \<Rightarrow> string \<Rightarrow> string \<Rightarrow> form_manager" where
  "contact_form n e s msg =
     registerForm \<lparr>forms = Map.empty\<rparr> ''contact-form''
       [text_input ''name'' n, text_input ''email'' e, text_input ''subject'' s,
        text_input ''message'' msg]
       (Some contact_rules) True"


definition two_email_form :: "string \<Rightarrow> string \<Rightarrow> form_manager" where
  "two_email_form a b =
     registerForm \<lparr>forms = Map.empty\<rparr> ''contact-form''
       [text_input ''email'' a, text_input ''email'' b] (Some contact_rules) True"

text \<open>
  A rule fails on a value when \<open>defaultRules\<close> has a validator under its name and
  that validator rejects the value; \<open>rule_message\<close> is the message reported for it. A
  rule throws when its name is an inherited property, and is passed over when
  \<open>defaultRules[name]\<close> is \<open>undefined\<close>.
\<close>

definition rule_known :: "rule \<Rightarrow> bool" where
  "rule_known r = (defaultRules (ruleName r) \<noteq> None)"

definition rule_throws :: "rule \<Rightarrow> bool" where
  "rule_throws r = (get_property defaultRules (ruleName r) = Inherited)"

definition rule_fails :: "string \<Rightarrow> rule \<Rightarrow> bool" where
  "rule_fails v r =
     (case defaultRules (ruleName r) of
        None \<Rightarrow> False
      | Some validator \<Rightarrow> \<not> validate validator v (ruleParams r))"

definition rule_message :: "rule \<Rightarrow> string" where
  "rule_message r =
     (case defaultRules (ruleName r) of
        None \<Rightarrow> []
      | Some validator \<Rightarrow> failure_message validator (ruleName r) (ruleParams r))"

text \<open>
  The element at position \<open>i\<close> of a form has a value that is empty or whitespace
  and carries the error \<open>msg\<close>: under its name in \<open>errors\<close>, as the class \<open>error\<close> and
  as \<open>aria-invalid\<close>.
\<close>

definition holds_error :: "form_manager \<Rightarrow> string \<Rightarrow> nat \<Rightarrow> string \<Rightarrow> bool" where
  "holds_error m formId i msg =
     (case element_of m formId i of
        None \<Rightarrow> False
      | Some fld \<Rightarrow>
          String_trim (fvalue fld) = [] \<and> error_class fld \<and> aria_invalid fld \<and>
          error_of m formId (fname fld) = Some msg)"

text \<open>
  The element at position \<open>i\<close> of a form has the value \<open>v\<close> and carries no error.
\<close>

definition holds_no_error :: "form_manager \<Rightarrow> string \<Rightarrow> nat \<Rightarrow> string \<Rightarrow> bool" where
  "holds_no_error m formId i v =
     (case element_of m formId i of
        None \<Rightarrow> False
      | Some fld \<Rightarrow>
          fvalue fld = v \<and> \<not> error_class fld \<and> \<not> aria_invalid fld \<and>
          error_of m formId (fname fld) = None)"

section \<open>Facts about the store and the theme manager\<close>

text \<open>The \<open>try\<close>/\<open>catch\<close> of \<open>Storage.get\<close> and \<open>Storage.set\<close> leaves no exception.\<close>

lemma Storage_get_returns: "\<exists>v. Storage_get ls key fallback = Inr v"
  by (simp add: Storage_get_def split: sum.splits option.splits)

lemma Storage_get_cases:
  "Storage_get ls key fallback =
     Inr (if readable ls then
            (case items ls key of
               None \<Rightarrow> fallback
             | Some raw \<Rightarrow> (case JSON_parse raw of Inl e \<Rightarrow> fallback | Inr v \<Rightarrow> if raw = [] then fallback else v))
          else fallback)"
  by (simp add: Storage_get_def getItem_def split: option.splits sum.splits)

lemma Storage_set_returns:
  "Storage_set ls key v =
     Inr (writable ls, if writable ls then ls\<lparr>items := (items ls)(key \<mapsto> JSON_stringify v)\<rparr> else ls)"
  by (simp add: Storage_set_def setItem_def)

lemma THEMES_includes_iff:
  "THEMES_includes v \<longleftrightarrow> v = JStr ''light'' \<or> v = JStr ''dark'' \<or> v = JStr ''system''"
  by (auto simp: THEMES_includes_def THEMES_values_def)

text \<open>
  The three preference strings under \<open>JSON.stringify\<close> and \<open>JSON.parse\<close>: the stored
  text is the string in double quotes, it parses back to the string, and the bare
  string is no JSON text.
\<close>

lemma stringify_themes:
  "JSON_stringify THEMES_LIGHT = CHR 0x22 # THEMES_LIGHT @ [CHR 0x22]"
  "JSON_stringify THEMES_DARK = CHR 0x22 # THEMES_DARK @ [CHR 0x22]"
  "JSON_stringify THEMES_SYSTEM = CHR 0x22 # THEMES_SYSTEM @ [CHR 0x22]"
  by code_simp+

lemma parse_stored_themes:
  "JSON_parse (JSON_stringify THEMES_LIGHT) = Inr (JStr THEMES_LIGHT)"
  "JSON_parse (JSON_stringify THEMES_DARK) = Inr (JStr THEMES_DARK)"
  "JSON_parse (JSON_stringify THEMES_SYSTEM) = Inr (JStr THEMES_SYSTEM)"
  by code_simp+

lemma parse_bare_themes:
  "JSON_parse THEMES_LIGHT = Inl SyntaxError"
  "JSON_parse THEMES_DARK = Inl SyntaxError"
  "JSON_parse THEMES_SYSTEM = Inl SyntaxError"
  by code_simp+

text \<open>Other texts: values that are no strings, and texts that are no JSON.\<close>

lemma JSON_parse_examples:
  "JSON_parse ''[1, [2.5e-3, {}], true, null]'' = Inr JObject"
  "JSON_parse (''{'' @ JSON_stringify ''a'' @ '': [[[]]], '' @ JSON_stringify ''b'' @ '': -0}'') = Inr JObject"
  "JSON_parse ''  12.50E-2 '' = Inr (JNum 1250 (- 4))"
  "JSON_parse ''false'' = Inr (JBool False)"
  "JSON_parse ''[1,]'' = Inl SyntaxError"
  "JSON_parse ''01'' = Inl SyntaxError"
  "JSON_parse ''dark light'' = Inl SyntaxError"
  "JSON_parse (CHR 0x22 # CHR 0x5C # ''u0064ark'' @ [CHR 0x22]) = Inr (JStr ''dark'')"
  "JSON_parse (CHR 0x22 # CHR 0x5C # ''u0164ark'' @ [CHR 0x22]) = Inr JWideStr"
  by code_simp+

lemma JSON_parse_empty: "JSON_parse [] = Inl SyntaxError"
  by code_simp

lemma storage_applyTheme: "storage (applyTheme w) = storage w"
  by (simp add: applyTheme_def Let_def)
lemma currentTheme_applyTheme: "currentTheme (applyTheme w) = currentTheme w"
  by (simp add: applyTheme_def Let_def)
lemma prefersDark_applyTheme: "prefersDark (applyTheme w) = prefersDark w"
  by (simp add: applyTheme_def Let_def)

lemma applyTheme_document:
  "data_theme (applyTheme w) = Some (getEffectiveTheme w)"
  "getEffectiveTheme w \<in> set (html_classes (applyTheme w))"
  "emitted (applyTheme w) = emitted w @ [(currentTheme w, getEffectiveTheme w)]"
  "meta_theme_color (applyTheme w) = Some (colors (getEffectiveTheme w))"
  "set (html_classes (applyTheme w)) =
     (set (html_classes w) - {JStr ''light'', JStr ''dark''}) \<union> {getEffectiveTheme w}"
  by (auto simp: applyTheme_def Let_def)

lemma getEffectiveTheme_cong:
  "currentTheme w = currentTheme w' \<Longrightarrow> prefersDark w = prefersDark w' \<Longrightarrow>
     getEffectiveTheme w = getEffectiveTheme w'"
  by (simp add: getEffectiveTheme_def)

lemma effective_of_valid:
  "THEMES_includes (currentTheme w) \<Longrightarrow>
     getEffectiveTheme w = JStr THEMES_LIGHT \<or> getEffectiveTheme w = JStr THEMES_DARK"
  by (auto simp: THEMES_includes_iff getEffectiveTheme_def)

lemma setTheme_valid:
  assumes "THEMES_includes (JStr t)"
  shows "setTheme (JStr t) w =
     Inr (let ls = (if writable (storage w)
                    then (storage w)\<lparr>items := (items (storage w))(STORAGE_KEY \<mapsto> JSON_stringify t)\<rparr>
                    else storage w);
              w1 = applyTheme (w\<lparr>currentTheme := JStr t, storage := ls\<rparr>)
          in if \<not> prefersReducedMotion w1 then animateThemeChange w1 else w1)"
  using assms by (simp add: Storage_set_returns Let_def)

lemma setTheme_invalid: "\<not> THEMES_includes v \<Longrightarrow> setTheme v w = Inr w"
  by (cases v) simp_all

declare setTheme.simps [simp del]

lemma setTheme_valid_fields:
  assumes "THEMES_includes (JStr t)" and "setTheme (JStr t) w = Inr w'"
  shows "currentTheme w' = JStr t"
    and "prefersDark w' = prefersDark w"
    and "storage w' = (if writable (storage w)
                    then (storage w)\<lparr>items := (items (storage w))(STORAGE_KEY \<mapsto> JSON_stringify t)\<rparr>
                    else storage w)"
    and "data_theme w' = Some (getEffectiveTheme w')"
    and "set (html_classes w') = (set (html_classes w) - {JStr ''light'', JStr ''dark''}) \<union> {getEffectiveTheme w'}"
    and "emitted w' = emitted w @ [(JStr t, getEffectiveTheme w')]"
    and "meta_theme_color w' = Some (colors (getEffectiveTheme w'))"
proof -
  define ls where "ls = (if writable (storage w)
                    then (storage w)\<lparr>items := (items (storage w))(STORAGE_KEY \<mapsto> JSON_stringify t)\<rparr>
                    else storage w)"
  define w0 where "w0 = w\<lparr>currentTheme := JStr t, storage := ls\<rparr>"
  define w1 where "w1 = applyTheme w0"
  have w': "w' = (if \<not> prefersReducedMotion w1 then animateThemeChange w1 else w1)"
    using assms(2) [symmetric] unfolding setTheme_valid [OF assms(1)] w1_def w0_def ls_def Let_def
    by (simp only: sum.inject)
  have eff: "getEffectiveTheme w' = getEffectiveTheme w0"
    by (rule getEffectiveTheme_cong)
       (simp_all add: w' w1_def animateThemeChange_def currentTheme_applyTheme prefersDark_applyTheme)
  show "currentTheme w' = JStr t"
    by (simp add: w' w1_def w0_def animateThemeChange_def currentTheme_applyTheme)
  show "prefersDark w' = prefersDark w"
    by (simp add: w' w1_def w0_def animateThemeChange_def prefersDark_applyTheme)
  show "storage w' = (if writable (storage w)
                    then (storage w)\<lparr>items := (items (storage w))(STORAGE_KEY \<mapsto> JSON_stringify t)\<rparr>
                    else storage w)"
    by (simp add: w' w1_def w0_def ls_def animateThemeChange_def storage_applyTheme)
  show "data_theme w' = Some (getEffectiveTheme w')"
    unfolding eff by (simp add: w' w1_def animateThemeChange_def applyTheme_document)
  show "set (html_classes w') = (set (html_classes w) - {JStr ''light'', JStr ''dark''}) \<union> {getEffectiveTheme w'}"
    unfolding eff by (simp add: w' w1_def animateThemeChange_def applyTheme_document) (simp add: w0_def)
  show "emitted w' = emitted w @ [(JStr t, getEffectiveTheme w')]"
    unfolding eff by (simp add: w' w1_def animateThemeChange_def applyTheme_document) (simp add: w0_def)
  show "meta_theme_color w' = Some (colors (getEffectiveTheme w'))"
    unfolding eff by (simp add: w' w1_def animateThemeChange_def applyTheme_document)
qed

lemma toggle_eq:
  "toggle w = setTheme (JStr (if getEffectiveTheme w = JStr THEMES_DARK then THEMES_LIGHT else THEMES_DARK)) w"
  by (simp add: toggle_def Let_def)

lemma loadSavedTheme_eq:
  "loadSavedTheme w =
     Inr (w\<lparr>currentTheme :=
            (case Storage_get (storage w) STORAGE_KEY JNull of
               Inr v \<Rightarrow> if THEMES_includes v then v else JStr THEMES_SYSTEM
             | Inl e \<Rightarrow> JStr THEMES_SYSTEM)\<rparr>)"
proof -
  obtain v where v: "Storage_get (storage w) STORAGE_KEY JNull = Inr v"
    using Storage_get_returns by blast
  have "THEMES_includes v \<Longrightarrow> truthy v"
    by (auto simp: THEMES_includes_iff)
  then show ?thesis
    by (auto simp: loadSavedTheme_def v)
qed

lemma init_eq:
  "init w = Inr (applyTheme ((setupToggleButton w)\<lparr>currentTheme :=
            (case Storage_get (storage w) STORAGE_KEY JNull of
               Inr v \<Rightarrow> if THEMES_includes v then v else JStr THEMES_SYSTEM
             | Inl e \<Rightarrow> JStr THEMES_SYSTEM)\<rparr>))"
proof -
  have "storage (setupToggleButton w) = storage w"
    by (simp add: setupToggleButton_def split: option.splits)
  then show ?thesis
    by (simp add: init_def loadSavedTheme_eq)
qed

text \<open>
  A preference stored by \<open>setTheme\<close> is the one the next page load starts from.
\<close>

lemma reload_restores_preference:
  assumes "THEMES_includes (JStr t)" and "setTheme (JStr t) w = Inr w'"
    and "writable (storage w)" and "readable (storage w)"
  shows "\<exists>w''. init w' = Inr w'' \<and> currentTheme w'' = JStr t"
proof -
  have st: "storage w' = (storage w)\<lparr>items := (items (storage w))(STORAGE_KEY \<mapsto> JSON_stringify t)\<rparr>"
    using setTheme_valid_fields(3) [OF assms(1) assms(2)] assms(3) by simp
  have p: "JSON_parse (JSON_stringify t) = Inr (JStr t)"
    using assms(1) parse_stored_themes by (auto simp: THEMES_includes_iff)
  have ne: "JSON_stringify t \<noteq> []"
    by (simp add: JSON_stringify_def)
  have "Storage_get (storage w') STORAGE_KEY JNull = Inr (JStr t)"
    using assms(4) ne by (simp add: Storage_get_cases st p)
  then show ?thesis
    using assms(1) by (simp add: init_eq currentTheme_applyTheme)
qed

lemma storage_init: "init w = Inr w' \<Longrightarrow> storage w' = storage w"
  by (auto simp: init_eq storage_applyTheme setupToggleButton_def split: option.splits)

lemma theme_step_storage:
  "\<exists>w'. theme_step op w = Inr w' \<and>
     (storage w' = storage w \<or>
      (\<exists>t. THEMES_includes (JStr t) \<and> currentTheme w' = JStr t \<and>
           storage w' = (storage w)\<lparr>items := (items (storage w))(STORAGE_KEY \<mapsto> JSON_stringify t)\<rparr>))"
proof -
  have set: "\<exists>w'. setTheme v w = Inr w' \<and>
     (storage w' = storage w \<or>
      (\<exists>t. THEMES_includes (JStr t) \<and> currentTheme w' = JStr t \<and>
           storage w' = (storage w)\<lparr>items := (items (storage w))(STORAGE_KEY \<mapsto> JSON_stringify t)\<rparr>))" for v
  proof (cases "THEMES_includes v")
    case False
    then show ?thesis by (simp add: setTheme_invalid)
  next
    case True
    then obtain t where v: "v = JStr t"
      by (auto simp: THEMES_includes_iff)
    obtain w' where w': "setTheme (JStr t) w = Inr w'"
      using True v by (simp add: setTheme_valid)
    note f = setTheme_valid_fields [OF True [unfolded v] w']
    show ?thesis
      using True w' f(1) f(3) unfolding v by (cases "writable (storage w)") auto
  qed
  show ?thesis
  proof (cases op)
    case Init
    then show ?thesis using storage_init [of w] by (auto simp: init_eq)
  next
    case Toggle
    then show ?thesis using set by (simp add: toggle_eq)
  next
    case (SetTheme v)
    then show ?thesis using set by simp
  next
    case Reset
    then show ?thesis using set by (simp add: reset_def)
  next
    case (SchemeChange d)
    then show ?thesis by (simp add: Let_def storage_applyTheme)
  next
    case Visible
    then show ?thesis by (simp add: storage_applyTheme)
  qed
qed

lemma theme_step_entry:
  "\<exists>w'. theme_step op w = Inr w' \<and> readable (storage w') = readable (storage w) \<and>
     (\<forall>k. k \<noteq> STORAGE_KEY \<longrightarrow> items (storage w') k = items (storage w) k) \<and>
     (items (storage w') STORAGE_KEY = items (storage w) STORAGE_KEY \<or>
      (\<exists>t. (t = THEMES_LIGHT \<or> t = THEMES_DARK \<or> t = THEMES_SYSTEM) \<and>
           items (storage w') STORAGE_KEY = Some (CHR 0x22 # t @ [CHR 0x22])))"
proof -
  obtain w' where s: "theme_step op w = Inr w'"
    and c: "storage w' = storage w \<or>
      (\<exists>t. THEMES_includes (JStr t) \<and> currentTheme w' = JStr t \<and>
           storage w' = (storage w)\<lparr>items := (items (storage w))(STORAGE_KEY \<mapsto> JSON_stringify t)\<rparr>)"
    using theme_step_storage by blast
  from c show ?thesis
  proof
    assume "storage w' = storage w"
    then show ?thesis using s by simp
  next
    assume "\<exists>t. THEMES_includes (JStr t) \<and> currentTheme w' = JStr t \<and>
           storage w' = (storage w)\<lparr>items := (items (storage w))(STORAGE_KEY \<mapsto> JSON_stringify t)\<rparr>"
    then obtain t where t: "THEMES_includes (JStr t)"
      and st: "storage w' = (storage w)\<lparr>items := (items (storage w))(STORAGE_KEY \<mapsto> JSON_stringify t)\<rparr>"
      by blast
    have q: "JSON_stringify t = CHR 0x22 # t @ [CHR 0x22]"
      using t stringify_themes by (auto simp: THEMES_includes_iff)
    have "t = THEMES_LIGHT \<or> t = THEMES_DARK \<or> t = THEMES_SYSTEM"
      using t by (simp add: THEMES_includes_iff)
    then show ?thesis
      using s st q by auto
  qed
qed

section \<open>Claims about the theme manager\<close>

text \<open>
  C1. For a preference of \<open>light\<close> or \<open>dark\<close>, \<open>getEffectiveTheme\<close> returns the
  preference whatever the ambient scheme is; for the preference \<open>system\<close> it returns
  the ambient scheme at the time of the call.
\<close>

theorem getEffectiveTheme_resolves:
  "(currentTheme w = JStr THEMES_LIGHT \<or> currentTheme w = JStr THEMES_DARK \<longrightarrow>
      getEffectiveTheme (w\<lparr>prefersDark := ambient\<rparr>) = currentTheme w) \<and>
   (currentTheme w = JStr THEMES_SYSTEM \<longrightarrow>
      getEffectiveTheme (w\<lparr>prefersDark := ambient\<rparr>) =
        (if ambient then JStr THEMES_DARK else JStr THEMES_LIGHT))"
  by (auto simp: getEffectiveTheme_def)

theorem getEffectiveTheme_resolves_witness:
  "currentTheme ((page (store_of []) False)\<lparr>currentTheme := JStr ''dark''\<rparr>) = JStr THEMES_DARK \<and>
   getEffectiveTheme ((page (store_of []) False)\<lparr>currentTheme := JStr ''dark'', prefersDark := False\<rparr>)
     = JStr ''dark'' \<and>
   currentTheme ((page (store_of []) False)\<lparr>currentTheme := JStr ''system''\<rparr>) = JStr THEMES_SYSTEM \<and>
   getEffectiveTheme ((page (store_of []) False)\<lparr>currentTheme := JStr ''system'', prefersDark := True\<rparr>)
     = JStr ''dark''"
  using getEffectiveTheme_resolves [of "(page (store_of []) False)\<lparr>currentTheme := JStr ''dark''\<rparr>" False]
    getEffectiveTheme_resolves [of "(page (store_of []) False)\<lparr>currentTheme := JStr ''system''\<rparr>" True]
  by (simp add: page_def)

text \<open>
  C2. In every state whose preference is \<open>light\<close>, \<open>dark\<close> or \<open>system\<close>, \<open>toggle\<close>
  sets the preference to the concrete opposite of the effective theme (never to
  \<open>system\<close>), hands that value to \<open>Storage.set\<close> under the manager's key (so a
  writable store holds its JSON text afterwards) and re-applies the theme: the root
  element's class, its \<open>data-theme\<close>, the theme colour and the \<open>themeChanged\<close> event
  all carry the new theme.
\<close>

theorem toggle_sets_opposite:
  assumes "THEMES_includes (currentTheme w)"
    and "next = (if getEffectiveTheme w = JStr THEMES_DARK then THEMES_LIGHT else THEMES_DARK)"
  shows "\<exists>w'. toggle w = Inr w' \<and>
           {getEffectiveTheme w, JStr next} = {JStr THEMES_LIGHT, JStr THEMES_DARK} \<and>
           currentTheme w' = JStr next \<and>
           currentTheme w' \<noteq> JStr THEMES_SYSTEM \<and>
           Storage_set (storage w) STORAGE_KEY next = Inr (writable (storage w), storage w') \<and>
           (writable (storage w) \<longrightarrow>
              items (storage w') STORAGE_KEY = Some (JSON_stringify next)) \<and>
           getEffectiveTheme w' = JStr next \<and>
           data_theme w' = Some (JStr next) \<and>
           set (html_classes w') =
             (set (html_classes w) - {JStr ''light'', JStr ''dark''}) \<union> {JStr next} \<and>
           meta_theme_color w' = Some (colors (JStr next)) \<and>
           emitted w' = emitted w @ [(JStr next, JStr next)]"
proof -
  have valid: "THEMES_includes (JStr next)"
    using assms(2) by (simp add: THEMES_includes_iff)
  have opp: "{getEffectiveTheme w, JStr next} = {JStr THEMES_LIGHT, JStr THEMES_DARK}"
    using effective_of_valid [OF assms(1)] assms(2) by auto
  have nsys: "next \<noteq> THEMES_SYSTEM"
    using assms(2) by auto
  obtain w' where w': "setTheme (JStr next) w = Inr w'"
    using valid by (simp add: setTheme_valid)
  have tog: "toggle w = Inr w'"
    using w' assms(2) by (simp add: toggle_eq)
  note f = setTheme_valid_fields [OF valid w']
  have eff: "getEffectiveTheme w' = JStr next"
    using f(1) nsys by (simp add: getEffectiveTheme_def)
  show ?thesis
  proof (intro exI conjI impI)
    show "toggle w = Inr w'" by (rule tog)
    show "{getEffectiveTheme w, JStr next} = {JStr THEMES_LIGHT, JStr THEMES_DARK}" by (rule opp)
    show "currentTheme w' = JStr next" by (rule f(1))
    show "currentTheme w' \<noteq> JStr THEMES_SYSTEM" using f(1) nsys by simp
    show "Storage_set (storage w) STORAGE_KEY next = Inr (writable (storage w), storage w')"
      unfolding f(3) by (rule Storage_set_returns)
    show "items (storage w') STORAGE_KEY = Some (JSON_stringify next)" if "writable (storage w)"
      using that by (simp add: f(3))
    show "getEffectiveTheme w' = JStr next" by (rule eff)
    show "data_theme w' = Some (JStr next)" using f(4) eff by simp
    show "set (html_classes w') =
            (set (html_classes w) - {JStr ''light'', JStr ''dark''}) \<union> {JStr next}"
      using f(5) eff by simp
    show "meta_theme_color w' = Some (colors (JStr next))" using f(7) eff by simp
    show "emitted w' = emitted w @ [(JStr next, JStr next)]" using f(6) eff by simp
  qed
qed

theorem toggle_sets_opposite_witness:
  "THEMES_includes (currentTheme ((page (store_of []) True)\<lparr>currentTheme := JStr ''system''\<rparr>)) \<and>
   getEffectiveTheme ((page (store_of []) True)\<lparr>currentTheme := JStr ''system''\<rparr>) = JStr ''dark'' \<and>
   (\<exists>w'. toggle ((page (store_of []) True)\<lparr>currentTheme := JStr ''system''\<rparr>) = Inr w' \<and>
      currentTheme w' = JStr ''light'' \<and>
      items (storage w') STORAGE_KEY = Some (JSON_stringify ''light'') \<and>
      data_theme w' = Some (JStr ''light'') \<and>
      set (html_classes w') = {JStr ''light''})"
proof -
  let ?w = "(page (store_of []) True)\<lparr>currentTheme := JStr ''system''\<rparr>"
  have h1: "THEMES_includes (currentTheme ?w)"
    by (simp add: page_def THEMES_includes_iff)
  have e: "getEffectiveTheme ?w = JStr ''dark''"
    by (simp add: page_def getEffectiveTheme_def)
  have h2: "''light'' = (if getEffectiveTheme ?w = JStr THEMES_DARK then THEMES_LIGHT else THEMES_DARK)"
    by (simp add: e)
  have wr: "writable (storage ?w)" "html_classes ?w = []"
    by (simp_all add: page_def store_of_def)
  show ?thesis
    using toggle_sets_opposite [OF h1 h2] h1 e wr by auto
qed

text \<open>
  C3. From every state whose preference is \<open>light\<close>, \<open>dark\<close> or \<open>system\<close>, two calls
  of \<open>toggle\<close> with the ambient scheme unchanged in between give the effective theme
  the first call started from.
\<close>

theorem toggle_twice_effective:
  assumes "THEMES_includes (currentTheme w)"
  shows "\<exists>w1 w2. toggle w = Inr w1 \<and> prefersDark w1 = prefersDark w \<and> toggle w1 = Inr w2 \<and>
           getEffectiveTheme w2 = getEffectiveTheme w"
proof -
  define n1 where "n1 = (if getEffectiveTheme w = JStr THEMES_DARK then THEMES_LIGHT else THEMES_DARK)"
  have v1: "THEMES_includes (JStr n1)"
    by (simp add: n1_def THEMES_includes_iff)
  obtain w1 where w1: "setTheme (JStr n1) w = Inr w1"
    using v1 by (simp add: setTheme_valid)
  note f1 = setTheme_valid_fields [OF v1 w1]
  have e1: "getEffectiveTheme w1 = JStr n1"
    using f1(1) by (auto simp: getEffectiveTheme_def n1_def)
  define n2 where "n2 = (if getEffectiveTheme w1 = JStr THEMES_DARK then THEMES_LIGHT else THEMES_DARK)"
  have v2: "THEMES_includes (JStr n2)"
    by (simp add: n2_def THEMES_includes_iff)
  obtain w2 where w2: "setTheme (JStr n2) w1 = Inr w2"
    using v2 by (simp add: setTheme_valid)
  note f2 = setTheme_valid_fields [OF v2 w2]
  have e2: "getEffectiveTheme w2 = JStr n2"
    using f2(1) by (auto simp: getEffectiveTheme_def n2_def)
  have "JStr n2 = getEffectiveTheme w"
    using effective_of_valid [OF assms] e1 by (auto simp: n2_def n1_def)
  moreover have "toggle w = Inr w1"
    using w1 by (simp add: toggle_eq n1_def)
  moreover have "toggle w1 = Inr w2"
    using w2 by (simp add: toggle_eq n2_def)
  ultimately show ?thesis
    using e2 f1(2) by metis
qed

theorem toggle_twice_effective_witness:
  "THEMES_includes (currentTheme ((page (store_of []) True)\<lparr>currentTheme := JStr ''system''\<rparr>)) \<and>
   (\<exists>w1 w2. toggle ((page (store_of []) True)\<lparr>currentTheme := JStr ''system''\<rparr>) = Inr w1 \<and>
      toggle w1 = Inr w2 \<and> getEffectiveTheme w2 = JStr ''dark'')"
proof -
  let ?w = "(page (store_of []) True)\<lparr>currentTheme := JStr ''system''\<rparr>"
  have h1: "THEMES_includes (currentTheme ?w)"
    by (simp add: page_def THEMES_includes_iff)
  have e: "getEffectiveTheme ?w = JStr ''dark''"
    by (simp add: page_def getEffectiveTheme_def)
  show ?thesis
    using toggle_twice_effective [OF h1] h1 e by auto
qed

text \<open>
  C4, as stated: whenever the string stored under the key is not one of \<open>light\<close>,
  \<open>dark\<close>, \<open>system\<close>, initialization sets the preference to \<open>system\<close>. The store
  holds JSON text, so it fails on the very string \<open>setTheme\<close> writes: with the
  six characters \<open>"dark"\<close> (quotes included) stored, which is none of the three
  strings, \<open>init\<close> restores the preference \<open>dark\<close>.
\<close>

theorem init_quoted_counterexample:
  "items (storage (page (store_of [(STORAGE_KEY, CHR 0x22 # ''dark'' @ [CHR 0x22])]) False)) STORAGE_KEY
     = Some (CHR 0x22 # ''dark'' @ [CHR 0x22]) \<and>
   CHR 0x22 # ''dark'' @ [CHR 0x22] \<notin> {''light'', ''dark'', ''system''} \<and>
   preference_of (init (page (store_of [(STORAGE_KEY, CHR 0x22 # ''dark'' @ [CHR 0x22])]) False))
     = Some (JStr ''dark'') \<and>
   JStr ''dark'' \<noteq> JStr ''system''"
  using parse_stored_themes(2)
  by (simp add: init_eq preference_of_def currentTheme_applyTheme Storage_get_cases page_def store_of_def
        THEMES_includes_iff stringify_themes)

text \<open>
  C4, amended. For every store (unreadable, without an entry, or holding any
  string under the key) \<open>init\<close> returns without an exception and leaves the store as
  it was; the preference is \<open>system\<close> whenever the store cannot be read, the entry is
  absent, or the stored string is not the JSON text of one of the three preference
  strings; and a readable entry that is such a JSON text restores that preference.
\<close>

theorem init_defaults_to_system:
  "\<exists>w'. init w = Inr w' \<and> storage w' = storage w \<and>
     (items (storage w) STORAGE_KEY = None \<longrightarrow> currentTheme w' = JStr THEMES_SYSTEM) \<and>
     (\<not> readable (storage w) \<longrightarrow> currentTheme w' = JStr THEMES_SYSTEM) \<and>
     (\<forall>raw. items (storage w) STORAGE_KEY = Some raw \<and>
            JSON_parse raw \<noteq> Inr (JStr THEMES_LIGHT) \<and>
            JSON_parse raw \<noteq> Inr (JStr THEMES_DARK) \<and>
            JSON_parse raw \<noteq> Inr (JStr THEMES_SYSTEM) \<longrightarrow>
            currentTheme w' = JStr THEMES_SYSTEM) \<and>
     (\<forall>raw v. readable (storage w) \<and> items (storage w) STORAGE_KEY = Some raw \<and>
            JSON_parse raw = Inr v \<and> THEMES_includes v \<longrightarrow> currentTheme w' = v)"
proof -
  define pref where "pref = (case Storage_get (storage w) STORAGE_KEY JNull of
               Inr v \<Rightarrow> if THEMES_includes v then v else JStr THEMES_SYSTEM
             | Inl e \<Rightarrow> JStr THEMES_SYSTEM)"
  define w' where "w' = applyTheme ((setupToggleButton w)\<lparr>currentTheme := pref\<rparr>)"
  have i: "init w = Inr w'"
    by (simp add: init_eq w'_def pref_def)
  have st: "storage w' = storage w"
    by (simp add: w'_def storage_applyTheme setupToggleButton_def split: option.splits)
  have ct: "currentTheme w' = pref"
    by (simp add: w'_def currentTheme_applyTheme)
  have a: "pref = JStr THEMES_SYSTEM" if "items (storage w) STORAGE_KEY = None"
    using that by (simp add: pref_def Storage_get_cases THEMES_includes_iff)
  have b: "pref = JStr THEMES_SYSTEM" if "\<not> readable (storage w)"
    using that by (simp add: pref_def Storage_get_cases THEMES_includes_iff)
  have c: "pref = JStr THEMES_SYSTEM"
    if "items (storage w) STORAGE_KEY = Some raw"
      "JSON_parse raw \<noteq> Inr (JStr THEMES_LIGHT)" "JSON_parse raw \<noteq> Inr (JStr THEMES_DARK)"
      "JSON_parse raw \<noteq> Inr (JStr THEMES_SYSTEM)" for raw
    using that by (auto simp: pref_def Storage_get_cases THEMES_includes_iff split: sum.splits)
  have d: "pref = v"
    if "readable (storage w)" "items (storage w) STORAGE_KEY = Some raw"
      "JSON_parse raw = Inr v" "THEMES_includes v" for raw v
  proof -
    have "raw \<noteq> []" using that(3) by (auto simp: JSON_parse_empty)
    then show ?thesis using that by (simp add: pref_def Storage_get_cases)
  qed
  show ?thesis
  proof (intro exI [of _ w'] conjI allI impI)
    show "init w = Inr w'" by (rule i)
    show "storage w' = storage w" by (rule st)
    show "currentTheme w' = JStr THEMES_SYSTEM" if "items (storage w) STORAGE_KEY = None"
      using a [OF that] ct by simp
    show "currentTheme w' = JStr THEMES_SYSTEM" if "\<not> readable (storage w)"
      using b [OF that] ct by simp
    show "currentTheme w' = JStr THEMES_SYSTEM"
      if "items (storage w) STORAGE_KEY = Some raw \<and>
            JSON_parse raw \<noteq> Inr (JStr THEMES_LIGHT) \<and>
            JSON_parse raw \<noteq> Inr (JStr THEMES_DARK) \<and>
            JSON_parse raw \<noteq> Inr (JStr THEMES_SYSTEM)" for raw
      using c [of raw] that ct by simp
    show "currentTheme w' = v"
      if "readable (storage w) \<and> items (storage w) STORAGE_KEY = Some raw \<and>
            JSON_parse raw = Inr v \<and> THEMES_includes v" for raw v
      using d [of raw v] that ct by simp
  qed
qed

theorem init_defaults_to_system_witness:
  "items (storage (page (store_of [(STORAGE_KEY, ''dark'')]) True)) STORAGE_KEY = Some ''dark'' \<and>
   JSON_parse ''dark'' = Inl SyntaxError \<and>
   preference_of (init (page (store_of [(STORAGE_KEY, ''dark'')]) True)) = Some (JStr ''system'') \<and>
   items (storage (page (store_of [(STORAGE_KEY, CHR 0x22 # ''light'' @ [CHR 0x22])]) True)) STORAGE_KEY
     = Some (CHR 0x22 # ''light'' @ [CHR 0x22]) \<and>
   JSON_parse (CHR 0x22 # ''light'' @ [CHR 0x22]) = Inr (JStr ''light'') \<and>
   preference_of (init (page (store_of [(STORAGE_KEY, CHR 0x22 # ''light'' @ [CHR 0x22])]) True))
     = Some (JStr ''light'') \<and>
   preference_of (init (page (store_of []) True)) = Some (JStr ''system'') \<and>
   preference_of (init (page \<lparr>items = Map.empty, readable = False, writable = False\<rparr> True))
     = Some (JStr ''system'')"
proof -
  let ?a = "page (store_of [(STORAGE_KEY, ''dark'')]) True"
  let ?b = "page (store_of [(STORAGE_KEY, CHR 0x22 # ''light'' @ [CHR 0x22])]) True"
  let ?c = "page (store_of []) True"
  let ?d = "page \<lparr>items = Map.empty, readable = False, writable = False\<rparr> True"
  have ia: "items (storage ?a) STORAGE_KEY = Some ''dark''"
    and ib: "items (storage ?b) STORAGE_KEY = Some (CHR 0x22 # ''light'' @ [CHR 0x22])"
    and rb: "readable (storage ?b)"
    and ic: "items (storage ?c) STORAGE_KEY = None"
    and rd: "\<not> readable (storage ?d)"
    by (simp_all add: page_def store_of_def)
  have pa: "JSON_parse ''dark'' = Inl SyntaxError"
    by (rule parse_bare_themes)
  have pb: "JSON_parse (CHR 0x22 # ''light'' @ [CHR 0x22]) = Inr (JStr ''light'')"
    using parse_stored_themes(1) by (simp add: stringify_themes)
  have vb: "THEMES_includes (JStr ''light'')"
    by (simp add: THEMES_includes_iff)
  have "preference_of (init ?a) = Some (JStr ''system'')"
    using init_defaults_to_system [of ?a] ia pa by (auto simp: preference_of_def)
  moreover have "preference_of (init ?b) = Some (JStr ''light'')"
    using init_defaults_to_system [of ?b] ib pb rb vb by (auto simp: preference_of_def)
  moreover have "preference_of (init ?c) = Some (JStr ''system'')"
    using init_defaults_to_system [of ?c] ic by (auto simp: preference_of_def)
  moreover have "preference_of (init ?d) = Some (JStr ''system'')"
    using init_defaults_to_system [of ?d] rd by (auto simp: preference_of_def)
  ultimately show ?thesis
    using ia ib pa pb by simp
qed

text \<open>
  C5, as stated: the string stored under the key is the literal \<open>light\<close>, \<open>dark\<close> or
  \<open>system\<close>, not an encoding of it. \<open>Storage.set\<close> stores \<open>JSON.stringify(value)\<close>:
  after \<open>setTheme('dark')\<close> on an empty store the entry is the six characters
  \<open>"dark"\<close>, quotes included, which is none of the three literals.
\<close>

theorem persisted_literal_counterexample:
  "stored_entry (setTheme (JStr ''dark'') (page (store_of []) False))
     = Some (CHR 0x22 # ''dark'' @ [CHR 0x22]) \<and>
   stored_entry (setTheme (JStr ''dark'') (page (store_of []) False)) \<noteq> Some ''dark'' \<and>
   CHR 0x22 # ''dark'' @ [CHR 0x22] \<notin> {''light'', ''dark'', ''system''}"
proof -
  have v: "THEMES_includes (JStr ''dark'')"
    by (simp add: THEMES_includes_iff)
  have "stored_entry (setTheme (JStr ''dark'') (page (store_of []) False))
     = Some (CHR 0x22 # ''dark'' @ [CHR 0x22])"
    unfolding setTheme_valid [OF v]
    by (simp add: stored_entry_def Let_def storage_applyTheme animateThemeChange_def page_def
          store_of_def stringify_themes)
  then show ?thesis by simp
qed

text \<open>
  C5, amended. Whatever operations run on the theme manager, none throws, every
  entry of the store other than the one under \<open>portfolio-theme\<close> stays as it was, and
  the entry under that key is either the one found at the start or the JSON text of
  \<open>light\<close>, \<open>dark\<close> or \<open>system\<close>: the literal enclosed in double quotes.
\<close>

theorem persisted_entry_is_json_text:
  "\<exists>w'. theme_run ops w = Inr w' \<and>
     (\<forall>k. k \<noteq> STORAGE_KEY \<longrightarrow> items (storage w') k = items (storage w) k) \<and>
     (items (storage w') STORAGE_KEY = items (storage w) STORAGE_KEY \<or>
      (\<exists>t. (t = THEMES_LIGHT \<or> t = THEMES_DARK \<or> t = THEMES_SYSTEM) \<and>
           items (storage w') STORAGE_KEY = Some (CHR 0x22 # t @ [CHR 0x22])))"
proof (induction ops arbitrary: w)
  case Nil
  show ?case by simp
next
  case (Cons op ops)
  obtain w1 where s: "theme_step op w = Inr w1"
    and k1: "\<forall>k. k \<noteq> STORAGE_KEY \<longrightarrow> items (storage w1) k = items (storage w) k"
    and e1: "items (storage w1) STORAGE_KEY = items (storage w) STORAGE_KEY \<or>
      (\<exists>t. (t = THEMES_LIGHT \<or> t = THEMES_DARK \<or> t = THEMES_SYSTEM) \<and>
           items (storage w1) STORAGE_KEY = Some (CHR 0x22 # t @ [CHR 0x22]))"
    using theme_step_entry [of op w] by blast
  obtain w' where r: "theme_run ops w1 = Inr w'"
    and k2: "\<forall>k. k \<noteq> STORAGE_KEY \<longrightarrow> items (storage w') k = items (storage w1) k"
    and e2: "items (storage w') STORAGE_KEY = items (storage w1) STORAGE_KEY \<or>
      (\<exists>t. (t = THEMES_LIGHT \<or> t = THEMES_DARK \<or> t = THEMES_SYSTEM) \<and>
           items (storage w') STORAGE_KEY = Some (CHR 0x22 # t @ [CHR 0x22]))"
    using Cons.IH [of w1] by blast
  have "theme_run (op # ops) w = Inr w'"
    using s r by simp
  moreover have "\<forall>k. k \<noteq> STORAGE_KEY \<longrightarrow> items (storage w') k = items (storage w) k"
    using k1 k2 by simp
  moreover have "items (storage w') STORAGE_KEY = items (storage w) STORAGE_KEY \<or>
      (\<exists>t. (t = THEMES_LIGHT \<or> t = THEMES_DARK \<or> t = THEMES_SYSTEM) \<and>
           items (storage w') STORAGE_KEY = Some (CHR 0x22 # t @ [CHR 0x22]))"
    using e1 e2 by metis
  ultimately show ?case by blast
qed

theorem persisted_entry_is_json_text_witness:
  "''theme'' \<noteq> STORAGE_KEY \<and>
   stored_entry (theme_run [Init, Toggle, Reset] (page (store_of [(''theme'', ''dark'')]) True))
     = Some (CHR 0x22 # ''system'' @ [CHR 0x22]) \<and>
   (\<exists>w'. theme_run [Init, Toggle, Reset] (page (store_of [(''theme'', ''dark'')]) True) = Inr w' \<and>
      items (storage w') ''theme'' = Some ''dark'' \<and>
      (items (storage w') STORAGE_KEY = None \<or>
       items (storage w') STORAGE_KEY = Some (CHR 0x22 # ''light'' @ [CHR 0x22]) \<or>
       items (storage w') STORAGE_KEY = Some (CHR 0x22 # ''dark'' @ [CHR 0x22]) \<or>
       items (storage w') STORAGE_KEY = Some (CHR 0x22 # ''system'' @ [CHR 0x22])))"
proof -
  let ?w = "page (store_of [(''theme'', ''dark'')]) True"
  have i: "items (storage ?w) ''theme'' = Some ''dark''" "items (storage ?w) STORAGE_KEY = None"
    by (simp_all add: page_def store_of_def)
  have n: "''theme'' \<noteq> STORAGE_KEY" by simp
  have run: "stored_entry (theme_run [Init, Toggle, Reset] ?w)
               = Some (CHR 0x22 # ''system'' @ [CHR 0x22])"
    by (simp add: init_eq toggle_eq reset_def setTheme_valid THEMES_includes_iff Storage_get_cases
          Let_def storage_applyTheme currentTheme_applyTheme prefersDark_applyTheme
          animateThemeChange_def page_def store_of_def stringify_themes stored_entry_def
          setupToggleButton_def getEffectiveTheme_def)
  have "\<exists>w'. theme_run [Init, Toggle, Reset] ?w = Inr w' \<and>
      items (storage w') ''theme'' = Some ''dark'' \<and>
      (items (storage w') STORAGE_KEY = None \<or>
       items (storage w') STORAGE_KEY = Some (CHR 0x22 # ''light'' @ [CHR 0x22]) \<or>
       items (storage w') STORAGE_KEY = Some (CHR 0x22 # ''dark'' @ [CHR 0x22]) \<or>
       items (storage w') STORAGE_KEY = Some (CHR 0x22 # ''system'' @ [CHR 0x22]))"
    using persisted_entry_is_json_text [of "[Init, Toggle, Reset]" ?w] i n by auto
  then show ?thesis
    using n run by blast
qed

text \<open>
  C9. The effective theme depends on the preference and the ambient scheme alone;
  applying the theme never touches the store; and every operation either leaves the
  store as it was or writes, under the manager's key, the JSON text of the
  preference it has just set (after \<open>reset\<close> that is \<open>system\<close>, whatever the effective
  theme is).
\<close>

theorem effective_theme_pure_never_persisted:
  "(currentTheme w1 = currentTheme w2 \<and> prefersDark w1 = prefersDark w2 \<longrightarrow>
      getEffectiveTheme w1 = getEffectiveTheme w2) \<and>
   storage (applyTheme w) = storage w \<and>
   (\<exists>w'. theme_step op w = Inr w' \<and>
      (storage w' = storage w \<or>
       (\<exists>t. currentTheme w' = JStr t \<and>
            storage w' = (storage w)\<lparr>items := (items (storage w))(STORAGE_KEY \<mapsto> JSON_stringify t)\<rparr>)))"
proof (intro conjI impI)
  show "getEffectiveTheme w1 = getEffectiveTheme w2"
    if "currentTheme w1 = currentTheme w2 \<and> prefersDark w1 = prefersDark w2"
    using that by (simp add: getEffectiveTheme_def)
  show "storage (applyTheme w) = storage w"
    by (rule storage_applyTheme)
  show "\<exists>w'. theme_step op w = Inr w' \<and>
      (storage w' = storage w \<or>
       (\<exists>t. currentTheme w' = JStr t \<and>
            storage w' = (storage w)\<lparr>items := (items (storage w))(STORAGE_KEY \<mapsto> JSON_stringify t)\<rparr>))"
    using theme_step_storage [of op w] by blast
qed

theorem effective_theme_pure_never_persisted_witness:
  "currentTheme ((page (store_of []) True)\<lparr>currentTheme := JStr ''system''\<rparr>)
     = currentTheme ((page (store_of []) True)\<lparr>currentTheme := JStr ''system'', html_classes := [JStr ''x'']\<rparr>) \<and>
   getEffectiveTheme ((page (store_of []) True)\<lparr>currentTheme := JStr ''system''\<rparr>)
     = getEffectiveTheme ((page (store_of []) True)\<lparr>currentTheme := JStr ''system'', html_classes := [JStr ''x'']\<rparr>) \<and>
   (\<exists>w'. theme_step Reset ((page (store_of []) True)\<lparr>currentTheme := JStr ''dark''\<rparr>) = Inr w' \<and>
      getEffectiveTheme w' = JStr ''dark'' \<and>
      items (storage w') STORAGE_KEY = Some (JSON_stringify ''system''))"
proof -
  let ?w1 = "(page (store_of []) True)\<lparr>currentTheme := JStr ''system''\<rparr>"
  let ?w2 = "(page (store_of []) True)\<lparr>currentTheme := JStr ''system'', html_classes := [JStr ''x'']\<rparr>"
  let ?w = "(page (store_of []) True)\<lparr>currentTheme := JStr ''dark''\<rparr>"
  note t = effective_theme_pure_never_persisted [of ?w1 ?w2 ?w Reset]
  have same: "currentTheme ?w1 = currentTheme ?w2" "prefersDark ?w1 = prefersDark ?w2"
    by (simp_all add: page_def)
  have e: "getEffectiveTheme ?w1 = getEffectiveTheme ?w2"
    using t same by blast
  have v: "THEMES_includes (JStr ''system'')"
    by (simp add: THEMES_includes_iff)
  obtain w' where s: "theme_step Reset ?w = Inr w'"
    using t by blast
  then have s': "setTheme (JStr ''system'') ?w = Inr w'"
    by (simp add: reset_def)
  note f = setTheme_valid_fields [OF v s']
  have "getEffectiveTheme w' = JStr ''dark''"
    using f(1) f(2) by (simp add: getEffectiveTheme_def page_def)
  moreover have "items (storage w') STORAGE_KEY = Some (JSON_stringify ''system'')"
    using f(3) by (simp add: page_def store_of_def)
  ultimately show ?thesis
    using same e s by blast
qed

text \<open>
  C10. For every argument other than the strings \<open>light\<close>, \<open>dark\<close> and \<open>system\<close>,
  \<open>setTheme\<close> returns the state it was given: preference, store, document and event
  log are unchanged.
\<close>

theorem setTheme_invalid_noop:
  assumes "\<not> THEMES_includes v"
  shows "setTheme v w = Inr w"
  using assms by (rule setTheme_invalid)

theorem setTheme_invalid_noop_witness:
  "\<not> THEMES_includes (JStr ''blue'') \<and>
   setTheme (JStr ''blue'') (page (store_of []) True) = Inr (page (store_of []) True) \<and>
   \<not> THEMES_includes JNull \<and>
   setTheme JNull (page (store_of []) True) = Inr (page (store_of []) True)"
proof -
  have a: "\<not> THEMES_includes (JStr ''blue'')" and b: "\<not> THEMES_includes JNull"
    by (simp_all add: THEMES_includes_iff)
  show ?thesis
    using setTheme_invalid_noop [OF a] setTheme_invalid_noop [OF b] a b by simp
qed

section \<open>Facts about the flat theme script\<close>

text \<open>
  On a readable store the script shows the dark theme exactly when the string under
  \<open>theme\<close> is the bare \<open>dark\<close>, and the light theme for every other string and for
  no entry; it has no third state.
\<close>

lemma script_load_readable:
  "readable (script_storage p) \<Longrightarrow>
     \<exists>p'. script_load p = Inr p' \<and>
          html_dark p' = (items (script_storage p) ''theme'' = Some ''dark'') \<and>
          script_storage p' = script_storage p"
  by (auto simp: script_load_def getItem_def Let_def split: option.splits)

text \<open>
  A click stores the bare string \<open>light\<close> or \<open>dark\<close> under \<open>theme\<close>, the one it shows,
  and touches no other key.
\<close>

lemma script_click_writable:
  "writable (script_storage p) \<Longrightarrow>
     \<exists>p'. script_click p = Inr p' \<and>
          html_dark p' = (\<not> html_dark p) \<and>
          items (script_storage p') ''theme'' = Some (if html_dark p' then ''dark'' else ''light'') \<and>
          (\<forall>k. k \<noteq> ''theme'' \<longrightarrow> items (script_storage p') k = items (script_storage p) k)"
  by (auto simp: script_click_def setItem_def Let_def)

text \<open>Outside a \<open>try\<close>, a store that cannot be read or written makes the script throw.\<close>

lemma script_unavailable:
  "\<not> readable (script_storage p) \<Longrightarrow> script_load p = Inl SecurityError"
  "\<not> writable (script_storage p) \<Longrightarrow> script_click p = Inl QuotaExceededError"
  by (simp_all add: script_load_def script_click_def getItem_def setItem_def Let_def)

section \<open>Facts about the navigation manager\<close>

text \<open>One turn of the loop, and what the loop returns.\<close>

lemma find_active_step:
  "find_active secs pos (Suc n) =
     (if \<exists>el. element (secs ! n) = Some el \<and> in_section el pos then Some n
      else find_active secs pos n)"
  by (auto split: option.splits)

declare find_active.simps(2) [simp del]

lemma find_active_Some:
  "find_active secs pos n = Some i \<longleftrightarrow>
           i < n \<and> (\<exists>el. element (secs ! i) = Some el \<and> in_section el pos) \<and>
           (\<forall>j. i < j \<and> j < n \<longrightarrow> \<not> (\<exists>el. element (secs ! j) = Some el \<and> in_section el pos))"
proof -
  define P where "P j = (\<exists>el. element (secs ! j) = Some el \<and> in_section el pos)" for j
  have step: "find_active secs pos (Suc n) = (if P n then Some n else find_active secs pos n)" for n
    unfolding P_def by (rule find_active_step)
  have "find_active secs pos n = Some i \<longleftrightarrow> i < n \<and> P i \<and> (\<forall>j. i < j \<and> j < n \<longrightarrow> \<not> P j)"
  proof (induction n)
    case 0
    show ?case by simp
  next
    case (Suc n)
    show ?case
    proof (cases "P n")
      case True
      have "(i < Suc n \<and> P i \<and> (\<forall>j. i < j \<and> j < Suc n \<longrightarrow> \<not> P j)) \<longleftrightarrow> i = n"
      proof
        assume a: "i < Suc n \<and> P i \<and> (\<forall>j. i < j \<and> j < Suc n \<longrightarrow> \<not> P j)"
        show "i = n"
        proof (rule ccontr)
          assume "i \<noteq> n"
          with a have "i < n" by simp
          with a True show False by auto
        qed
      next
        assume "i = n"
        with True show "i < Suc n \<and> P i \<and> (\<forall>j. i < j \<and> j < Suc n \<longrightarrow> \<not> P j)" by auto
      qed
      with True show ?thesis by (auto simp: step)
    next
      case False
      have "(\<forall>j. i < j \<and> j < Suc n \<longrightarrow> \<not> P j) \<longleftrightarrow> (\<forall>j. i < j \<and> j < n \<longrightarrow> \<not> P j)"
        using False by (auto simp: less_Suc_eq)
      moreover have "i < Suc n \<and> P i \<longleftrightarrow> i < n \<and> P i"
        using False by (auto simp: less_Suc_eq)
      ultimately show ?thesis using False Suc by (auto simp: step)
    qed
  qed
  then show ?thesis by (simp add: P_def)
qed

lemma find_active_None:
  "find_active secs pos n = None \<longleftrightarrow>
     (\<forall>j. j < n \<longrightarrow> \<not> (\<exists>el. element (secs ! j) = Some el \<and> in_section el pos))"
proof (induction n)
  case 0
  show ?case by simp
next
  case (Suc n)
  show ?case
    unfolding find_active_step using Suc by (auto simp: less_Suc_eq)
qed

lemma cacheElements_elements: "s \<in> set (cacheElements cands) \<Longrightarrow> element s \<noteq> None"
  by (simp add: cacheElements_def)

lemma updateActiveSection_scrolling: "isScrolling st \<Longrightarrow> updateActiveSection st y = st"
  by (simp add: updateActiveSection_def)

section \<open>Claims about the navigation manager\<close>

text \<open>
  C6, as stated: the active section is the last section whose top lies above the
  scroll offset adjusted by the header height, also past the bottom of a section.
  The loop also requires the adjusted offset to be no greater than the section's
  bottom: on a page whose only section is 100 pixels high at the top, at the scroll
  offset 500 the section's top lies above the offset (adjusted either way by 80) and
  no section is active.
\<close>

theorem active_section_past_bottom_counterexample:
  "sections one_section_page =
     [\<lparr>sid = ''about'', element = Some \<lparr>offsetTop = 0, offsetHeight = 100\<rparr>, link = 0\<rparr>] \<and>
   (0::int) < 500 - headerOffset \<and> (0::int) < 500 + headerOffset \<and>
   currentActiveSection (updateActiveSection one_section_page 500) = None \<and>
   currentActiveSection (updateActiveSection one_section_page 500) \<noteq> Some 0"
  by (simp add: one_section_page_def cacheElements_def updateActiveSection_def updateActiveLinks_def
        find_active_step in_section_def Let_def)

text \<open>
  C6, amended. On a scroll update that runs while no animated scroll is in progress,
  the active section is the last section, in the order of \<open>sections\<close>, whose range
  from 100 pixels above its top to its bottom (top plus height) contains the scroll
  offset plus the header height 80; there is no active section exactly when no
  section's range contains it.
\<close>

theorem active_section_is_last_in_range:
  assumes "\<not> isScrolling st"
  shows "(currentActiveSection (updateActiveSection st pageYOffset) = Some i \<longleftrightarrow>
            i < length (sections st) \<and>
            (\<exists>el. element (sections st ! i) = Some el \<and>
                  offsetTop el - 100 \<le> pageYOffset + 80 \<and>
                  pageYOffset + 80 \<le> offsetTop el + offsetHeight el) \<and>
            (\<forall>j. i < j \<and> j < length (sections st) \<longrightarrow>
                 \<not> (\<exists>el. element (sections st ! j) = Some el \<and>
                        offsetTop el - 100 \<le> pageYOffset + 80 \<and>
                        pageYOffset + 80 \<le> offsetTop el + offsetHeight el))) \<and>
         (currentActiveSection (updateActiveSection st pageYOffset) = None \<longleftrightarrow>
            (\<forall>j. j < length (sections st) \<longrightarrow>
                 \<not> (\<exists>el. element (sections st ! j) = Some el \<and>
                        offsetTop el - 100 \<le> pageYOffset + 80 \<and>
                        pageYOffset + 80 \<le> offsetTop el + offsetHeight el)))"
proof -
  have cur: "currentActiveSection (updateActiveSection st pageYOffset) =
               find_active (sections st) (pageYOffset + 80) (length (sections st))"
    using assms by (simp add: updateActiveSection_def updateActiveLinks_def Let_def)
  have rng: "in_section el (pageYOffset + 80) \<longleftrightarrow>
               offsetTop el - 100 \<le> pageYOffset + 80 \<and>
               pageYOffset + 80 \<le> offsetTop el + offsetHeight el" for el
    by (simp add: in_section_def Let_def)
  show ?thesis
    unfolding cur find_active_Some find_active_None rng by simp
qed

theorem active_section_is_last_in_range_witness:
  "\<not> isScrolling three_section_page \<and>
   currentActiveSection (updateActiveSection three_section_page 320) = Some 1 \<and>
   currentActiveSection (updateActiveSection three_section_page 900) = None \<and>
   currentActiveSection (updateActiveSection three_section_page 1020) = Some 2"
proof -
  have n: "\<not> isScrolling three_section_page"
    by (simp add: three_section_page_def)
  have secs: "sections three_section_page =
     [\<lparr>sid = ''home'', element = Some \<lparr>offsetTop = 0, offsetHeight = 400\<rparr>, link = 0\<rparr>,
      \<lparr>sid = ''about'', element = Some \<lparr>offsetTop = 400, offsetHeight = 400\<rparr>, link = 1\<rparr>,
      \<lparr>sid = ''contact'', element = Some \<lparr>offsetTop = 1200, offsetHeight = 400\<rparr>, link = 2\<rparr>]"
    by (simp add: three_section_page_def cacheElements_def)
  note t = active_section_is_last_in_range [OF n]
  have "currentActiveSection (updateActiveSection three_section_page 320) = Some 1"
    unfolding conjunct1 [OF t [of 320 1]] secs by (auto simp: less_Suc_eq numeral_3_eq_3 numeral_2_eq_2)
  moreover have "currentActiveSection (updateActiveSection three_section_page 900) = None"
    unfolding conjunct2 [OF t [of 900 0]] secs by (auto simp: less_Suc_eq numeral_3_eq_3 numeral_2_eq_2)
  moreover have "currentActiveSection (updateActiveSection three_section_page 1020) = Some 2"
    unfolding conjunct1 [OF t [of 1020 2]] secs by (auto simp: less_Suc_eq numeral_3_eq_3 numeral_2_eq_2)
  ultimately show ?thesis using n by simp
qed

section \<open>Facts about the form manager\<close>

declare nat_digits.simps [simp del]

lemma nat_digits_nonempty: "nat_digits n \<noteq> []"
  by (subst nat_digits.simps) simp

lemma defaultRules_required:
  "defaultRules ''required'' =
     Some \<lparr>validate = (\<lambda>v ps. isNotEmpty v), message = ''This field is required''\<rparr>"
  by (simp add: defaultRules_def)

lemma message_nonempty: "defaultRules name = Some vd \<Longrightarrow> failure_message vd name ps \<noteq> []"
  by (auto simp: defaultRules_def failure_message_def split: if_splits)

lemma rule_message_nonempty: "rule_known r \<Longrightarrow> rule_message r \<noteq> []"
  by (auto simp: rule_known_def rule_message_def message_nonempty)

lemma rule_fails_known: "rule_fails v r \<Longrightarrow> rule_known r"
  by (auto simp: rule_fails_def rule_known_def split: option.splits)

lemma rule_known_not_throws: "rule_known r \<Longrightarrow> \<not> rule_throws r"
  by (auto simp: rule_known_def rule_throws_def get_property_def)

lemma get_property_Own: "obj name = Some v \<Longrightarrow> get_property obj name = Own v"
  by (simp add: get_property_def)

lemma check_rules_step:
  "check_rules v (r # rules) =
     (if rule_throws r then Inl TypeError
      else if rule_fails v r then Inr (Some (rule_message r), [r])
      else if rule_known r
        then (case check_rules v rules of
                Inl e \<Rightarrow> Inl e
              | Inr (res, calls) \<Rightarrow> Inr (res, r # calls))
      else check_rules v rules)"
  by (simp add: rule_throws_def rule_fails_def rule_known_def rule_message_def get_property_def
        split: option.splits)

declare check_rules.simps(2) [simp del]

lemma check_rules_all_pass:
  "\<not> list_ex (rule_fails v) rules \<Longrightarrow> \<not> list_ex rule_throws rules \<Longrightarrow>
     check_rules v rules = Inr (None, filter rule_known rules)"
  by (induction rules) (simp_all add: check_rules_step)

lemma check_rules_first_failure:
  "\<not> list_ex (rule_fails v) pre \<Longrightarrow> \<not> list_ex rule_throws pre \<Longrightarrow> rule_fails v r \<Longrightarrow>
     check_rules v (pre @ r # post) = Inr (Some (rule_message r), filter rule_known pre @ [r])"
  by (induction pre) (simp_all add: check_rules_step rule_known_not_throws rule_fails_known)

lemma check_rules_first_throw:
  "\<not> list_ex (rule_fails v) pre \<Longrightarrow> \<not> list_ex rule_throws pre \<Longrightarrow> rule_throws r \<Longrightarrow>
     check_rules v (pre @ r # post) = Inl TypeError"
  by (induction pre) (simp_all add: check_rules_step)

lemma check_rules_fails:
  "list_ex (rule_fails v) rules \<Longrightarrow> \<not> list_ex rule_throws rules \<Longrightarrow>
     \<exists>msg calls. check_rules v rules = Inr (Some msg, calls) \<and> msg \<noteq> []"
proof (induction rules)
  case Nil
  then show ?case by simp
next
  case (Cons r rules)
  have nt: "\<not> rule_throws r"
    using Cons.prems(2) by simp
  show ?case
  proof (cases "rule_fails v r")
    case True
    then show ?thesis
      using rule_message_nonempty [OF rule_fails_known [OF True]] nt
      by (simp add: check_rules_step)
  next
    case False
    then obtain msg calls where "check_rules v rules = Inr (Some msg, calls)" "msg \<noteq> []"
      using Cons by auto
    then show ?thesis using False nt by (simp add: check_rules_step)
  qed
qed

lemma required_fails_empty: "ruleName r = ''required'' \<Longrightarrow> rule_fails [] r"
  by (simp add: rule_fails_def defaultRules_required isNotEmpty_def String_trim_def)

lemma map_update_same:
  "j < length xs \<Longrightarrow> g y = g (xs ! j) \<Longrightarrow> map g (xs[j := y]) = map g xs"
  by (simp add: map_update list_update_same_conv)

lemma form_shape_setFieldError: "form_shape (setFieldError m f' j msg) f = form_shape m f"
  by (auto simp: form_shape_def setFieldError_def Let_def map_update_same split: option.splits)

lemma form_shape_clearFieldError: "form_shape (clearFieldError m f' j) f = form_shape m f"
  by (auto simp: form_shape_def clearFieldError_def Let_def map_update_same split: option.splits)

lemma element_of_setFieldError:
  "element_of (setFieldError m f' j msg) f i =
     (if f' = f \<and> j = i
      then map_option (\<lambda>fld. fld\<lparr>error_class := True, aria_invalid := True\<rparr>) (element_of m f i)
      else element_of m f i)"
  by (auto simp: element_of_def setFieldError_def Let_def split: option.splits)

lemma element_of_clearFieldError:
  "element_of (clearFieldError m f' j) f i =
     (if f' = f \<and> j = i
      then map_option (\<lambda>fld. fld\<lparr>error_class := False, aria_invalid := False\<rparr>) (element_of m f i)
      else element_of m f i)"
  by (auto simp: element_of_def clearFieldError_def Let_def split: option.splits)

lemma error_of_setFieldError:
  "error_of (setFieldError m f' j msg) f n =
     (if f' = f \<and> map_option fname (element_of m f j) = Some n then Some msg
      else error_of m f n)"
  by (auto simp: error_of_def element_of_def setFieldError_def Let_def split: option.splits)

lemma error_of_clearFieldError:
  "error_of (clearFieldError m f' j) f n =
     (if f' = f \<and> map_option fname (element_of m f j) = Some n then None
      else error_of m f n)"
  by (auto simp: error_of_def element_of_def clearFieldError_def Let_def split: option.splits)

lemma form_shape_element:
  "form_shape m f = Some (r, nds) \<Longrightarrow> element_of m f j = Some fld \<Longrightarrow>
     j < length nds \<and> nds ! j = (fname fld, defaultValue fld)"
  by (auto simp: form_shape_def element_of_def split: option.splits if_splits)

lemma validateField_eq:
  assumes "forms m f = Some form" and "validationRules form = Some vr"
    and "i < length (elements form)" and "vr (fname (elements form ! i)) = Some rules"
  shows "validateField m f i =
           (case check_rules (String_trim (fvalue (elements form ! i))) rules of
              Inl e \<Rightarrow> Inl e
            | Inr (Some msg, calls) \<Rightarrow> Inr (False, calls, setFieldError m f i msg)
            | Inr (None, calls) \<Rightarrow> Inr (True, calls, clearFieldError m f i))"
  using assms by (simp add: validateField_def Let_def get_property_Own)

lemma validateField_cases:
  "(\<exists>e. validateField m f j = Inl e) \<or>
   (\<exists>ok calls. validateField m f j = Inr (ok, calls, m)) \<or>
   (\<exists>msg calls. validateField m f j = Inr (False, calls, setFieldError m f j msg)) \<or>
   (\<exists>calls. validateField m f j = Inr (True, calls, clearFieldError m f j))"
  by (auto simp: validateField_def Let_def
        split: option.splits prod.splits property.splits sum.splits)

lemma validateField_at:
  assumes "form_shape m f = Some (Some vr, nds)" and "element_of m f i = Some fld"
    and "vr (fname fld) = Some rules"
  shows "validateField m f i =
           (case check_rules (String_trim (fvalue fld)) rules of
              Inl e \<Rightarrow> Inl e
            | Inr (Some msg, calls) \<Rightarrow> Inr (False, calls, setFieldError m f i msg)
            | Inr (None, calls) \<Rightarrow> Inr (True, calls, clearFieldError m f i))"
proof -
  obtain form where fm: "forms m f = Some form" and vr: "validationRules form = Some vr"
    using assms(1) by (auto simp: form_shape_def split: option.splits)
  have i: "i < length (elements form)" and fld: "elements form ! i = fld"
    using assms(2) fm by (auto simp: element_of_def split: if_splits)
  show ?thesis
    using validateField_eq [OF fm vr i] assms(3) fld by simp
qed

text \<open>
  An element whose name no other element of its form has keeps its error when an
  error is set or cleared for another element.
\<close>

lemma other_element_name:
  assumes sh: "form_shape m f = Some (r, nds)"
    and u: "\<forall>j<length nds. j \<noteq> i \<longrightarrow> fst (nds ! j) \<noteq> fst (nds ! i)"
    and el: "element_of m f i = Some fld"
    and ne: "(f', j) \<noteq> (f, i)"
  shows "\<not> (f' = f \<and> map_option fname (element_of m f j) = Some (fname fld))"
proof
  assume a: "f' = f \<and> map_option fname (element_of m f j) = Some (fname fld)"
  then obtain fld' where el': "element_of m f j = Some fld'" and n: "fname fld' = fname fld"
    by auto
  have "j < length nds" "fst (nds ! j) = fname fld'"
    using form_shape_element [OF sh el'] by simp_all
  moreover have "fst (nds ! i) = fname fld"
    using form_shape_element [OF sh el] by simp
  moreover have "j \<noteq> i"
    using a ne by simp
  ultimately show False
    using u n by simp
qed

lemma holds_error_cong:
  "element_of m' f i = element_of m f i \<Longrightarrow> (\<And>n. error_of m' f n = error_of m f n) \<Longrightarrow>
     holds_error m' f i msg = holds_error m f i msg"
  by (simp add: holds_error_def split: option.splits)

lemma holds_error_setFieldError_other:
  assumes sh: "form_shape m f = Some (r, nds)"
    and u: "\<forall>j<length nds. j \<noteq> i \<longrightarrow> fst (nds ! j) \<noteq> fst (nds ! i)"
    and h: "holds_error m f i msg"
    and ne: "(f', j) \<noteq> (f, i)"
  shows "holds_error (setFieldError m f' j msg') f i msg"
proof -
  obtain fld where el: "element_of m f i = Some fld"
    using h by (auto simp: holds_error_def split: option.splits)
  note o = other_element_name [OF sh u el ne]
  have e: "element_of (setFieldError m f' j msg') f i = Some fld"
    using ne el by (auto simp: element_of_setFieldError)
  have "error_of (setFieldError m f' j msg') f (fname fld) = error_of m f (fname fld)"
    by (simp only: error_of_setFieldError if_not_P [OF o])
  then show ?thesis
    using h by (simp add: holds_error_def e el)
qed

lemma holds_error_clearFieldError_other:
  assumes sh: "form_shape m f = Some (r, nds)"
    and u: "\<forall>j<length nds. j \<noteq> i \<longrightarrow> fst (nds ! j) \<noteq> fst (nds ! i)"
    and h: "holds_error m f i msg"
    and ne: "(f', j) \<noteq> (f, i)"
  shows "holds_error (clearFieldError m f' j) f i msg"
proof -
  obtain fld where el: "element_of m f i = Some fld"
    using h by (auto simp: holds_error_def split: option.splits)
  note o = other_element_name [OF sh u el ne]
  have e: "element_of (clearFieldError m f' j) f i = Some fld"
    using ne el by (auto simp: element_of_clearFieldError)
  have "error_of (clearFieldError m f' j) f (fname fld) = error_of m f (fname fld)"
    by (simp only: error_of_clearFieldError if_not_P [OF o])
  then show ?thesis
    using h by (simp add: holds_error_def e el)
qed

lemma holds_error_setFieldError_same:
  assumes "element_of m f i = Some fld" and "String_trim (fvalue fld) = []"
  shows "holds_error (setFieldError m f i msg) f i msg"
  using assms by (simp add: holds_error_def element_of_setFieldError error_of_setFieldError)

lemma form_shape_validateField:
  "validateField m f' j = Inr (ok, cs, m') \<Longrightarrow> form_shape m' f = form_shape m f"
  using validateField_cases [of m f' j]
  by (auto simp: form_shape_setFieldError form_shape_clearFieldError)

text \<open>
  The invariant of the events: the shape of the form, and the error of a blank
  element with a rule list that fails on the empty string.
\<close>

lemma holds_error_validateField:
  assumes sh: "form_shape m f = Some (Some vr, nds)"
    and u: "\<forall>j<length nds. j \<noteq> i \<longrightarrow> fst (nds ! j) \<noteq> fst (nds ! i)"
    and rl: "vr (fst (nds ! i)) = Some rules"
    and c: "check_rules [] rules = Inr (Some msg, calls)"
    and h: "holds_error m f i msg"
    and v: "validateField m f' j = Inr (ok, cs, m')"
  shows "holds_error m' f i msg"
proof (cases "(f', j) = (f, i)")
  case False
  from validateField_cases [of m f' j] show ?thesis
  proof (elim disjE exE)
    fix e assume "validateField m f' j = Inl e"
    then show ?thesis using v by simp
  next
    fix ok' calls' assume "validateField m f' j = Inr (ok', calls', m)"
    then show ?thesis using v h by simp
  next
    fix msg' calls' assume "validateField m f' j = Inr (False, calls', setFieldError m f' j msg')"
    then have "m' = setFieldError m f' j msg'" using v by simp
    then show ?thesis
      using holds_error_setFieldError_other [OF sh u h False] by simp
  next
    fix calls' assume "validateField m f' j = Inr (True, calls', clearFieldError m f' j)"
    then have "m' = clearFieldError m f' j" using v by simp
    then show ?thesis
      using holds_error_clearFieldError_other [OF sh u h False] by simp
  qed
next
  case True
  obtain fld where el: "element_of m f i = Some fld" and bl: "String_trim (fvalue fld) = []"
    using h by (auto simp: holds_error_def split: option.splits)
  have "fst (nds ! i) = fname fld"
    using form_shape_element [OF sh el] by simp
  then have "validateField m f i = Inr (False, calls, setFieldError m f i msg)"
    using validateField_at [OF sh el] rl by (simp add: bl c)
  then have "m' = setFieldError m f i msg"
    using v True by simp
  then show ?thesis
    using holds_error_setFieldError_same [OF el bl] by simp
qed

lemma validate_each_keeps:
  assumes u: "\<forall>j<length nds. j \<noteq> i \<longrightarrow> fst (nds ! j) \<noteq> fst (nds ! i)"
    and rl: "vr (fst (nds ! i)) = Some rules"
    and c: "check_rules [] rules = Inr (Some msg, calls)"
  shows "form_shape m f = Some (Some vr, nds) \<Longrightarrow> holds_error m f i msg \<Longrightarrow>
     form_shape (snd (validate_each m f' js ok)) f = Some (Some vr, nds) \<and>
     holds_error (snd (validate_each m f' js ok)) f i msg"
proof (induction js arbitrary: m ok)
  case Nil
  then show ?case by simp
next
  case (Cons a js)
  show ?case
  proof (cases "validateField m f' a")
    case (Inl e)
    then show ?thesis using Cons.prems by simp
  next
    case (Inr res)
    obtain b cs m' where res: "res = (b, cs, m')"
      by (cases res) auto
    have v: "validateField m f' a = Inr (b, cs, m')"
      using Inr res by simp
    have "form_shape m' f = Some (Some vr, nds)"
      using form_shape_validateField [OF v] Cons.prems(1) by simp
    moreover have "holds_error m' f i msg"
      by (rule holds_error_validateField [OF Cons.prems(1) u rl c Cons.prems(2) v])
    ultimately show ?thesis
      using Cons.IH [of m'] by (simp add: v)
  qed
qed

lemma submit_calls_keeps:
  assumes "forms m f' = Some form"
  shows "form_shape (m\<lparr>forms := (forms m)(f' \<mapsto> form\<lparr>submit_calls := s\<rparr>)\<rparr>) f = form_shape m f"
    and "holds_error (m\<lparr>forms := (forms m)(f' \<mapsto> form\<lparr>submit_calls := s\<rparr>)\<rparr>) f i msg =
           holds_error m f i msg"
proof -
  show "form_shape (m\<lparr>forms := (forms m)(f' \<mapsto> form\<lparr>submit_calls := s\<rparr>)\<rparr>) f = form_shape m f"
    using assms by (auto simp: form_shape_def)
  show "holds_error (m\<lparr>forms := (forms m)(f' \<mapsto> form\<lparr>submit_calls := s\<rparr>)\<rparr>) f i msg =
           holds_error m f i msg"
    using assms by (intro holds_error_cong) (auto simp: element_of_def error_of_def)
qed

lemma handleFormSubmit_cases:
  "snd (handleFormSubmit m f') = m \<or>
   (\<exists>form0. forms m f' = Some form0 \<and>
      (snd (handleFormSubmit m f') =
         snd (validate_each m f' (map snd (form_fields form0)) True) \<or>
       (\<exists>form s.
          forms (snd (validate_each m f' (map snd (form_fields form0)) True)) f' = Some form \<and>
          snd (handleFormSubmit m f') =
            (snd (validate_each m f' (map snd (form_fields form0)) True))
              \<lparr>forms := (forms (snd (validate_each m f' (map snd (form_fields form0)) True)))
                  (f' \<mapsto> form\<lparr>submit_calls := s\<rparr>)\<rparr>)))"
  by (auto simp: handleFormSubmit_def validateForm_def split: option.splits prod.splits sum.splits)

lemma handleFormSubmit_keeps:
  assumes u: "\<forall>j<length nds. j \<noteq> i \<longrightarrow> fst (nds ! j) \<noteq> fst (nds ! i)"
    and rl: "vr (fst (nds ! i)) = Some rules"
    and c: "check_rules [] rules = Inr (Some msg, calls)"
    and sh: "form_shape m f = Some (Some vr, nds)" and h: "holds_error m f i msg"
  shows "form_shape (snd (handleFormSubmit m f')) f = Some (Some vr, nds) \<and>
         holds_error (snd (handleFormSubmit m f')) f i msg"
proof -
  note p = validate_each_keeps [OF u rl c sh h]
  from handleFormSubmit_cases [of m f'] show ?thesis
  proof (elim disjE exE conjE)
    assume "snd (handleFormSubmit m f') = m"
    then show ?thesis using sh h by simp
  next
    fix form0
    assume "snd (handleFormSubmit m f') =
              snd (validate_each m f' (map snd (form_fields form0)) True)"
    then show ?thesis using p by simp
  next
    fix form0 form s
    assume a: "forms (snd (validate_each m f' (map snd (form_fields form0)) True)) f' = Some form"
      and b: "snd (handleFormSubmit m f') =
            (snd (validate_each m f' (map snd (form_fields form0)) True))
              \<lparr>forms := (forms (snd (validate_each m f' (map snd (form_fields form0)) True)))
                  (f' \<mapsto> form\<lparr>submit_calls := s\<rparr>)\<rparr>"
    show ?thesis
      unfolding b using p [of f' "map snd (form_fields form0)" True]
      by (simp add: submit_calls_keeps [OF a])
  qed
qed

lemma form_shape_form_reset: "form_shape (form_reset m f') f = form_shape m f"
  by (auto simp: form_shape_def form_reset_def split: option.splits)

lemma element_of_form_reset:
  "element_of (form_reset m f') f i =
     (if f' = f then map_option (\<lambda>fld. fld\<lparr>fvalue := defaultValue fld\<rparr>) (element_of m f i)
      else element_of m f i)"
  by (auto simp: element_of_def form_reset_def split: option.splits)

lemma error_of_form_reset: "error_of (form_reset m f') f n = error_of m f n"
  by (auto simp: error_of_def form_reset_def split: option.splits)

lemma holds_error_form_reset:
  assumes sh: "form_shape m f = Some (r, nds)"
    and d: "f' = f \<longrightarrow> String_trim (snd (nds ! i)) = []"
    and h: "holds_error m f i msg"
  shows "holds_error (form_reset m f') f i msg"
proof -
  obtain fld where el: "element_of m f i = Some fld"
    using h by (auto simp: holds_error_def split: option.splits)
  have "snd (nds ! i) = defaultValue fld"
    using form_shape_element [OF sh el] by simp
  then show ?thesis
    using h d el
    by (auto simp: holds_error_def element_of_form_reset error_of_form_reset)
qed

lemma set_value_keeps:
  assumes fm: "forms m f' = Some form" and j: "j < length (elements form)"
  shows "form_shape (m\<lparr>forms := (forms m)(f' \<mapsto>
           form\<lparr>elements := (elements form)[j := (elements form ! j)\<lparr>fvalue := x\<rparr>]\<rparr>)\<rparr>) f =
         form_shape m f"
    and "element_of (m\<lparr>forms := (forms m)(f' \<mapsto>
           form\<lparr>elements := (elements form)[j := (elements form ! j)\<lparr>fvalue := x\<rparr>]\<rparr>)\<rparr>) f i =
         (if f' = f \<and> j = i then map_option (\<lambda>fld. fld\<lparr>fvalue := x\<rparr>) (element_of m f i)
          else element_of m f i)"
    and "error_of (m\<lparr>forms := (forms m)(f' \<mapsto>
           form\<lparr>elements := (elements form)[j := (elements form ! j)\<lparr>fvalue := x\<rparr>]\<rparr>)\<rparr>) f n =
         error_of m f n"
  using assms
  by (auto simp: form_shape_def element_of_def error_of_def map_update_same)

lemma input_other_keeps:
  assumes sh: "form_shape m f = Some (r, nds)"
    and u: "\<forall>j<length nds. j \<noteq> i \<longrightarrow> fst (nds ! j) \<noteq> fst (nds ! i)"
    and h: "holds_error m f i msg"
    and ne: "(f', j) \<noteq> (f, i)"
  shows "form_shape (snd (form_step m (Input f' j x))) f = Some (r, nds) \<and>
         holds_error (snd (form_step m (Input f' j x))) f i msg"
proof (cases "forms m f'")
  case None
  then show ?thesis using sh h by simp
next
  case (Some form)
  show ?thesis
  proof (cases "j < length (elements form)")
    case False
    then show ?thesis using Some sh h by simp
  next
    case True
    define m2 where "m2 = m\<lparr>forms := (forms m)(f' \<mapsto>
           form\<lparr>elements := (elements form)[j := (elements form ! j)\<lparr>fvalue := x\<rparr>]\<rparr>)\<rparr>"
    have s2: "form_shape m2 f = Some (r, nds)"
      unfolding m2_def using sh by (simp add: set_value_keeps(1) [OF Some True])
    have e2: "element_of m2 f i = element_of m f i"
      unfolding m2_def using ne by (auto simp: set_value_keeps(2) [OF Some True])
    have r2: "error_of m2 f n = error_of m f n" for n
      unfolding m2_def by (simp add: set_value_keeps(3) [OF Some True])
    have h2: "holds_error m2 f i msg"
      using h holds_error_cong [OF e2 r2] by simp
    have st: "snd (form_step m (Input f' j x)) = clearFieldError m2 f' j"
      using Some True by (simp add: m2_def)
    show ?thesis
      unfolding st
      using holds_error_clearFieldError_other [OF s2 u h2 ne] s2
      by (simp add: form_shape_clearFieldError)
  qed
qed

lemma input_clears:
  assumes "element_of m f i = Some fld"
  shows "fst (form_step m (Input f i x)) = None \<and>
         holds_no_error (snd (form_step m (Input f i x))) f i x"
proof -
  obtain form where fm: "forms m f = Some form" and i: "i < length (elements form)"
    using assms by (auto simp: element_of_def split: option.splits if_splits)
  define m2 where "m2 = m\<lparr>forms := (forms m)(f \<mapsto>
           form\<lparr>elements := (elements form)[i := (elements form ! i)\<lparr>fvalue := x\<rparr>]\<rparr>)\<rparr>"
  have e2: "element_of m2 f i = Some (fld\<lparr>fvalue := x\<rparr>)"
    unfolding m2_def using assms by (simp add: set_value_keeps(2) [OF fm i])
  have st: "form_step m (Input f i x) = (None, clearFieldError m2 f i)"
    using fm i by (simp add: m2_def)
  show ?thesis
    unfolding st
    by (simp add: holds_no_error_def element_of_clearFieldError error_of_clearFieldError e2)
qed

lemma blur_keeps:
  assumes u: "\<forall>j<length nds. j \<noteq> i \<longrightarrow> fst (nds ! j) \<noteq> fst (nds ! i)"
    and rl: "vr (fst (nds ! i)) = Some rules"
    and c: "check_rules [] rules = Inr (Some msg, calls)"
    and sh: "form_shape m f = Some (Some vr, nds)" and h: "holds_error m f i msg"
  shows "form_shape (snd (form_step m (Blur f' j))) f = Some (Some vr, nds) \<and>
         holds_error (snd (form_step m (Blur f' j))) f i msg"
proof (cases "validateField m f' j")
  case (Inl e)
  then show ?thesis
    using sh h by (simp split: option.splits)
next
  case (Inr res)
  obtain b cs m' where v: "validateField m f' j = Inr (b, cs, m')"
    using Inr by (cases res) auto
  have "form_shape m' f = Some (Some vr, nds)"
    using form_shape_validateField [OF v] sh by simp
  moreover have "holds_error m' f i msg"
    by (rule holds_error_validateField [OF sh u rl c h v])
  ultimately show ?thesis
    using sh h v by (simp split: option.splits)
qed

lemma form_step_keeps:
  assumes u: "\<forall>j<length nds. j \<noteq> i \<longrightarrow> fst (nds ! j) \<noteq> fst (nds ! i)"
    and rl: "vr (fst (nds ! i)) = Some rules"
    and c: "check_rules [] rules = Inr (Some msg, calls)"
    and sh: "form_shape m f = Some (Some vr, nds)" and h: "holds_error m f i msg"
    and ev: "\<forall>x. ev \<noteq> Input f i x"
    and d: "ev = Reset_form f \<longrightarrow> String_trim (snd (nds ! i)) = []"
  shows "form_shape (snd (form_step m ev)) f = Some (Some vr, nds) \<and>
         holds_error (snd (form_step m ev)) f i msg"
proof (cases ev)
  case (Submit f')
  then show ?thesis using handleFormSubmit_keeps [OF u rl c sh h] by simp
next
  case (Blur f' j)
  then show ?thesis using blur_keeps [OF u rl c sh h] by simp
next
  case (Input f' j x)
  then have "(f', j) \<noteq> (f, i)" using ev by auto
  then show ?thesis
    using input_other_keeps [OF sh u h] Input by simp
next
  case (Reset_form f')
  then have "f' = f \<longrightarrow> String_trim (snd (nds ! i)) = []"
    using d by simp
  then show ?thesis
    using holds_error_form_reset [OF sh _ h, of f'] sh Reset_form
    by (simp add: form_shape_form_reset)
qed

lemma form_run_keeps:
  assumes u: "\<forall>j<length nds. j \<noteq> i \<longrightarrow> fst (nds ! j) \<noteq> fst (nds ! i)"
    and rl: "vr (fst (nds ! i)) = Some rules"
    and c: "check_rules [] rules = Inr (Some msg, calls)"
  shows "form_shape m f = Some (Some vr, nds) \<Longrightarrow> holds_error m f i msg \<Longrightarrow>
         \<forall>x. Input f i x \<notin> set evs \<Longrightarrow>
         Reset_form f \<in> set evs \<longrightarrow> String_trim (snd (nds ! i)) = [] \<Longrightarrow>
         holds_error (form_run m evs) f i msg"
proof (induction evs arbitrary: m)
  case Nil
  then show ?case by simp
next
  case (Cons ev evs)
  have ev: "\<forall>x. ev \<noteq> Input f i x"
    using Cons.prems(3) by auto
  have d: "ev = Reset_form f \<longrightarrow> String_trim (snd (nds ! i)) = []"
    using Cons.prems(4) by auto
  have rest: "\<forall>x. Input f i x \<notin> set evs"
    using Cons.prems(3) by auto
  have rest': "Reset_form f \<in> set evs \<longrightarrow> String_trim (snd (nds ! i)) = []"
    using Cons.prems(4) by auto
  note s = form_step_keeps [OF u rl c Cons.prems(1) Cons.prems(2) ev d]
  show ?case
    using Cons.IH [OF conjunct1 [OF s] conjunct2 [OF s] rest rest'] by simp
qed

text \<open>
  The order of the rules. For an element with a rule list, \<open>validateField\<close> goes
  through the list as long as no rule fails and no rule has an inherited name: at
  the first rule that fails it returns false with that rule's message set as the
  element's error, having called the validators of the rules before it and its own
  and none of a later rule; at a rule with an inherited name it throws; at the end
  of the list it returns true and clears the element's error.
\<close>

lemma validateField_rule_order:
  assumes "forms m formId = Some form" and "validationRules form = Some vr"
    and "i < length (elements form)" and "vr (fname (elements form ! i)) = Some rules"
  shows "(\<forall>pre r post.
            rules = pre @ r # post \<and>
            \<not> list_ex (rule_fails (String_trim (fvalue (elements form ! i)))) pre \<and>
            \<not> list_ex rule_throws pre \<and>
            rule_fails (String_trim (fvalue (elements form ! i))) r \<longrightarrow>
            validateField m formId i =
              Inr (False, filter rule_known pre @ [r],
                   setFieldError m formId i (rule_message r))) \<and>
         (\<forall>pre r post.
            rules = pre @ r # post \<and>
            \<not> list_ex (rule_fails (String_trim (fvalue (elements form ! i)))) pre \<and>
            \<not> list_ex rule_throws pre \<and> rule_throws r \<longrightarrow>
            validateField m formId i = Inl TypeError) \<and>
         (\<not> list_ex (rule_fails (String_trim (fvalue (elements form ! i)))) rules \<and>
          \<not> list_ex rule_throws rules \<longrightarrow>
            validateField m formId i =
              Inr (True, filter rule_known rules, clearFieldError m formId i))"
proof (intro conjI allI impI)
  fix pre r post
  assume "rules = pre @ r # post \<and>
            \<not> list_ex (rule_fails (String_trim (fvalue (elements form ! i)))) pre \<and>
            \<not> list_ex rule_throws pre \<and>
            rule_fails (String_trim (fvalue (elements form ! i))) r"
  then have "check_rules (String_trim (fvalue (elements form ! i))) rules =
               Inr (Some (rule_message r), filter rule_known pre @ [r])"
    by (simp add: check_rules_first_failure)
  then show "validateField m formId i =
          Inr (False, filter rule_known pre @ [r], setFieldError m formId i (rule_message r))"
    by (simp add: validateField_eq [OF assms])
next
  fix pre r post
  assume "rules = pre @ r # post \<and>
            \<not> list_ex (rule_fails (String_trim (fvalue (elements form ! i)))) pre \<and>
            \<not> list_ex rule_throws pre \<and> rule_throws r"
  then have "check_rules (String_trim (fvalue (elements form ! i))) rules = Inl TypeError"
    by (simp add: check_rules_first_throw)
  then show "validateField m formId i = Inl TypeError"
    by (simp add: validateField_eq [OF assms])
next
  assume "\<not> list_ex (rule_fails (String_trim (fvalue (elements form ! i)))) rules \<and>
          \<not> list_ex rule_throws rules"
  then have "check_rules (String_trim (fvalue (elements form ! i))) rules =
               Inr (None, filter rule_known rules)"
    by (simp add: check_rules_all_pass)
  then show "validateField m formId i =
          Inr (True, filter rule_known rules, clearFieldError m formId i)"
    by (simp add: validateField_eq [OF assms])
qed

text \<open>The elements and rules of the example forms.\<close>

lemma contact_form_forms:
  "forms (contact_form n e s msg) ''contact-form'' =
     Some \<lparr>validationRules = Some contact_rules, has_onSubmit = True,
           elements = [text_input ''name'' n, text_input ''email'' e, text_input ''subject'' s,
                       text_input ''message'' msg],
           form_fields = [(''name'', 0), (''email'', 1), (''subject'', 2), (''message'', 3)],
           errors = Map.empty, submit_calls = 0\<rparr>"
  by (simp add: contact_form_def registerForm_def text_input_def)

lemma contact_rules_name:
  "contact_rules ''name'' = Some [RuleName ''required'', RuleObject ''minLength'' (Single 2)]"
  by (simp add: contact_rules_def)

lemma contact_rules_email:
  "contact_rules ''email'' = Some [RuleName ''required'', RuleName ''email'']"
  by (simp add: contact_rules_def)


lemma two_email_form_forms:
  "forms (two_email_form a b) ''contact-form'' =
     Some \<lparr>validationRules = Some contact_rules, has_onSubmit = True,
           elements = [text_input ''email'' a, text_input ''email'' b],
           form_fields = [(''email'', 1)], errors = Map.empty, submit_calls = 0\<rparr>"
  by (simp add: two_email_form_def registerForm_def text_input_def)


lemma rule_required:
  "rule_known (RuleName ''required'')" "\<not> rule_throws (RuleName ''required'')"
  "rule_message (RuleName ''required'') = ''This field is required''"
  "rule_fails v (RuleName ''required'') = (String_trim v = [])"
  by (simp_all add: rule_known_def rule_throws_def rule_message_def rule_fails_def
        get_property_def defaultRules_def failure_message_def isNotEmpty_def)

lemma rule_email:
  "rule_known (RuleName ''email'')" "\<not> rule_throws (RuleName ''email'')"
  "rule_message (RuleName ''email'') = ''Please enter a valid email address''"
  "rule_fails v (RuleName ''email'') = (\<not> isEmail v)"
  by (simp_all add: rule_known_def rule_throws_def rule_message_def rule_fails_def
        get_property_def defaultRules_def failure_message_def)

lemma String_trim_examples:
  "String_trim [] = []" "String_trim ''a@b.co'' = ''a@b.co''"
  by (simp_all add: String_trim_def js_whitespace_def)

lemma isEmail_example: "isEmail ''a@b.co''"
  by (simp add: isEmail_def js_whitespace_def)

section \<open>Claims about the form manager\<close>


text \<open>
  C8. A field whose rule list contains \<open>required\<close> and whose value is \<open>''\<close> is to
  fail validation with a non-empty message, and the error is to stay until the
  next \<open>input\<close> event on the field. The errors of a form are kept under the names
  of its elements, so that the error does not stay when another element has the
  same name: in a form with two elements named \<open>email\<close>, the first empty and the
  second with the value \<open>a@b.co\<close>, \<open>blur\<close> on the first sets the error \<open>This field
  is required\<close> under \<open>email\<close>, and \<open>blur\<close> on the second, which validates, deletes
  it, while the first element is still empty, still has the class \<open>error\<close>, and no
  \<open>input\<close> event has fired.
\<close>

theorem shared_name_clears_error_counterexample:
  "contact_rules ''email'' = Some [RuleName ''required'', RuleName ''email''] \<and>
   validateField (two_email_form [] ''a@b.co'') ''contact-form'' 0 =
     Inr (False, [RuleName ''required''],
          form_run (two_email_form [] ''a@b.co'') [Blur ''contact-form'' 0]) \<and>
   error_of (form_run (two_email_form [] ''a@b.co'') [Blur ''contact-form'' 0])
     ''contact-form'' ''email'' = Some ''This field is required'' \<and>
   error_of (form_run (two_email_form [] ''a@b.co'')
               [Blur ''contact-form'' 0, Blur ''contact-form'' 1])
     ''contact-form'' ''email'' = None \<and>
   map_option fvalue
     (element_of (form_run (two_email_form [] ''a@b.co'')
                    [Blur ''contact-form'' 0, Blur ''contact-form'' 1])
        ''contact-form'' 0) = Some [] \<and>
   map_option error_class
     (element_of (form_run (two_email_form [] ''a@b.co'')
                    [Blur ''contact-form'' 0, Blur ''contact-form'' 1])
        ''contact-form'' 0) = Some True"
proof -
  define m0 where "m0 = two_email_form [] ''a@b.co''"
  define m1 where "m1 = setFieldError m0 ''contact-form'' 0 ''This field is required''"
  define m2 where "m2 = clearFieldError m1 ''contact-form'' 1"
  have f0: "forms m0 ''contact-form'' =
     Some \<lparr>validationRules = Some contact_rules, has_onSubmit = True,
           elements = [text_input ''email'' [], text_input ''email'' ''a@b.co''],
           form_fields = [(''email'', 1)], errors = Map.empty, submit_calls = 0\<rparr>"
    by (simp add: m0_def two_email_form_forms)
  have c0: "check_rules [] [RuleName ''required'', RuleName ''email''] =
              Inr (Some ''This field is required'', [RuleName ''required''])"
    by (simp add: check_rules_step rule_required String_trim_examples)
  have c1: "check_rules ''a@b.co'' [RuleName ''required'', RuleName ''email''] =
              Inr (None, [RuleName ''required'', RuleName ''email''])"
    by (simp add: check_rules_step rule_required rule_email String_trim_examples
          isEmail_example)
  have v0: "validateField m0 ''contact-form'' 0 = Inr (False, [RuleName ''required''], m1)"
    by (simp add: validateField_def f0 get_property_def contact_rules_email text_input_def
          String_trim_examples c0 m1_def)
  have s0: "form_step m0 (Blur ''contact-form'' 0) = (None, m1)"
    by (simp add: v0 f0)
  have sh1: "form_shape m1 ''contact-form'' =
               Some (Some contact_rules, [(''email'', []), (''email'', [])])"
    by (simp add: m1_def form_shape_setFieldError) (simp add: form_shape_def f0 text_input_def)
  have e10: "element_of m0 ''contact-form'' 1 = Some (text_input ''email'' ''a@b.co'')"
    by (simp add: element_of_def f0)
  have e00: "element_of m0 ''contact-form'' 0 = Some (text_input ''email'' [])"
    by (simp add: element_of_def f0)
  have e11: "element_of m1 ''contact-form'' 1 = Some (text_input ''email'' ''a@b.co'')"
    using e10 by (simp add: m1_def element_of_setFieldError)
  have v1: "validateField m1 ''contact-form'' 1 =
              Inr (True, [RuleName ''required'', RuleName ''email''], m2)"
    using validateField_at [OF sh1 e11]
    by (simp add: text_input_def contact_rules_email String_trim_examples c1 m2_def)
  have l1: "\<exists>form. forms m1 ''contact-form'' = Some form \<and> length (elements form) = 2"
    by (simp add: m1_def setFieldError_def f0 Let_def)
  have s1: "form_step m1 (Blur ''contact-form'' 1) = (None, m2)"
    using l1 v1 by auto
  have r1: "form_run m0 [Blur ''contact-form'' 0] = m1"
    by (simp only: form_run.simps s0 snd_conv)
  have r2: "form_run m0 [Blur ''contact-form'' 0, Blur ''contact-form'' 1] = m2"
    by (simp only: form_run.simps s0 s1 snd_conv)
  have a: "error_of m1 ''contact-form'' ''email'' = Some ''This field is required''"
    using e00 by (simp add: m1_def error_of_setFieldError text_input_def)
  have b: "error_of m2 ''contact-form'' ''email'' = None"
    using e11 by (simp add: m2_def error_of_clearFieldError text_input_def)
  have d: "map_option fvalue (element_of m2 ''contact-form'' 0) = Some []"
    using e00
    by (simp add: m2_def m1_def element_of_clearFieldError element_of_setFieldError
          text_input_def)
  have d': "map_option error_class (element_of m2 ''contact-form'' 0) = Some True"
    using e00
    by (simp add: m2_def m1_def element_of_clearFieldError element_of_setFieldError
          text_input_def)
  show ?thesis
    unfolding m0_def [symmetric] r1 r2
    by (intro conjI) (rule contact_rules_email v0 a b d d')+
qed

text \<open>
  C8, for an element whose rule list contains \<open>required\<close> and no rule named like a
  property that \<open>Object.prototype\<close> defines. With a value that is empty or only
  white space, \<open>validateField\<close> returns false and sets a non-empty message as the
  element's error: the entry of \<open>errors\<close> under its name, the class \<open>error\<close> and
  \<open>aria-invalid\<close>. When no other element of the form has the element's name, the
  element keeps that error, with its value still blank, through every sequence of
  \<open>submit\<close>, \<open>blur\<close>, \<open>input\<close> and reset events, on any form and element, in
  which no \<open>input\<close> event is on the element itself and no reset of its form gives
  it a default value that is not blank; and an \<open>input\<close> event on the element then
  clears the error. (\<open>resetForm\<close>, which nothing calls, is not among the events.)
\<close>

theorem required_blank_fails_until_input:
  assumes "forms m formId = Some form" and "validationRules form = Some vr"
    and "i < length (elements form)"
    and "vr (fname (elements form ! i)) = Some rules"
    and "\<exists>r\<in>set rules. ruleName r = ''required''"
    and "\<not> list_ex rule_throws rules"
    and "String_trim (fvalue (elements form ! i)) = []"
  shows "\<exists>msg calls m1.
           validateField m formId i = Inr (False, calls, m1) \<and> msg \<noteq> [] \<and>
           holds_error m1 formId i msg \<and>
           (\<forall>evs. (\<forall>j<length (elements form). j \<noteq> i \<longrightarrow>
                     fname (elements form ! j) \<noteq> fname (elements form ! i)) \<and>
                  (\<forall>x. Input formId i x \<notin> set evs) \<and>
                  (Reset_form formId \<in> set evs \<longrightarrow>
                     String_trim (defaultValue (elements form ! i)) = []) \<longrightarrow>
              holds_error (form_run m1 evs) formId i msg \<and>
              (\<forall>x. fst (form_step (form_run m1 evs) (Input formId i x)) = None \<and>
                   holds_no_error (snd (form_step (form_run m1 evs) (Input formId i x)))
                     formId i x))"
proof -
  define nds where "nds = map (\<lambda>fld. (fname fld, defaultValue fld)) (elements form)"
  have sh: "form_shape m formId = Some (Some vr, nds)"
    by (simp add: form_shape_def assms(1,2) nds_def)
  have el: "element_of m formId i = Some (elements form ! i)"
    by (simp add: element_of_def assms(1,3))
  have rl: "vr (fst (nds ! i)) = Some rules"
    using assms(3,4) by (simp add: nds_def)
  have dv: "snd (nds ! i) = defaultValue (elements form ! i)"
    using assms(3) by (simp add: nds_def)
  have "list_ex (rule_fails []) rules"
    using assms(5) required_fails_empty by (auto simp: list_ex_iff)
  then obtain msg calls where c: "check_rules [] rules = Inr (Some msg, calls)"
      and ne: "msg \<noteq> []"
    using check_rules_fails [OF _ assms(6)] by blast
  define m1 where "m1 = setFieldError m formId i msg"
  have v: "validateField m formId i = Inr (False, calls, m1)"
    by (simp add: validateField_eq [OF assms(1,2,3,4)] assms(7) c m1_def)
  have sh1: "form_shape m1 formId = Some (Some vr, nds)"
    by (simp add: m1_def form_shape_setFieldError sh)
  have h1: "holds_error m1 formId i msg"
    unfolding m1_def by (rule holds_error_setFieldError_same [OF el assms(7)])
  have run: "holds_error (form_run m1 evs) formId i msg \<and>
              (\<forall>x. fst (form_step (form_run m1 evs) (Input formId i x)) = None \<and>
                   holds_no_error (snd (form_step (form_run m1 evs) (Input formId i x)))
                     formId i x)"
    if a: "(\<forall>j<length (elements form). j \<noteq> i \<longrightarrow>
              fname (elements form ! j) \<noteq> fname (elements form ! i)) \<and>
           (\<forall>x. Input formId i x \<notin> set evs) \<and>
           (Reset_form formId \<in> set evs \<longrightarrow>
              String_trim (defaultValue (elements form ! i)) = [])" for evs
  proof -
    have u: "\<forall>j<length nds. j \<noteq> i \<longrightarrow> fst (nds ! j) \<noteq> fst (nds ! i)"
      using assms(3) a by (simp add: nds_def)
    have a1: "\<forall>x. Input formId i x \<notin> set evs"
      using a by simp
    have a2: "Reset_form formId \<in> set evs \<longrightarrow> String_trim (snd (nds ! i)) = []"
      using a by (simp add: dv)
    have h: "holds_error (form_run m1 evs) formId i msg"
      by (rule form_run_keeps [OF u rl c sh1 h1 a1 a2])
    then obtain fld2 where e2: "element_of (form_run m1 evs) formId i = Some fld2"
      by (auto simp: holds_error_def split: option.splits)
    show ?thesis
      using h input_clears [OF e2] by simp
  qed
  show ?thesis
    using v ne h1 run by blast
qed

theorem required_blank_fails_until_input_witness:
  "forms (contact_form [] ''a@b.co'' ''hi'' ''a long message'') ''contact-form'' =
     Some \<lparr>validationRules = Some contact_rules, has_onSubmit = True,
           elements = [text_input ''name'' [], text_input ''email'' ''a@b.co'',
                       text_input ''subject'' ''hi'', text_input ''message'' ''a long message''],
           form_fields = [(''name'', 0), (''email'', 1), (''subject'', 2), (''message'', 3)],
           errors = Map.empty, submit_calls = 0\<rparr> \<and>
   contact_rules ''name'' = Some [RuleName ''required'', RuleObject ''minLength'' (Single 2)] \<and>
   (\<exists>msg calls m1.
      validateField (contact_form [] ''a@b.co'' ''hi'' ''a long message'') ''contact-form'' 0 =
        Inr (False, calls, m1) \<and>
      msg \<noteq> [] \<and>
      holds_error
        (form_run m1 [Blur ''contact-form'' 0, Submit ''contact-form'',
                      Input ''contact-form'' 1 ''x'', Blur ''contact-form'' 1,
                      Reset_form ''contact-form''])
        ''contact-form'' 0 msg \<and>
      holds_no_error
        (snd (form_step
                (form_run m1 [Blur ''contact-form'' 0, Submit ''contact-form'',
                              Input ''contact-form'' 1 ''x'', Blur ''contact-form'' 1,
                              Reset_form ''contact-form''])
                (Input ''contact-form'' 0 ''A'')))
        ''contact-form'' 0 ''A'')"
proof -
  let ?m = "contact_form [] ''a@b.co'' ''hi'' ''a long message''"
  let ?form = "\<lparr>validationRules = Some contact_rules, has_onSubmit = True,
           elements = [text_input ''name'' [], text_input ''email'' ''a@b.co'',
                       text_input ''subject'' ''hi'', text_input ''message'' ''a long message''],
           form_fields = [(''name'', 0), (''email'', 1), (''subject'', 2), (''message'', 3)],
           errors = Map.empty, submit_calls = 0\<rparr>"
  let ?evs = "[Blur ''contact-form'' 0, Submit ''contact-form'',
               Input ''contact-form'' 1 ''x'', Blur ''contact-form'' 1,
               Reset_form ''contact-form'']"
  have a1: "forms ?m ''contact-form'' = Some ?form"
    by (rule contact_form_forms)
  have a2: "validationRules ?form = Some contact_rules"
    by simp
  have a3: "0 < length (elements ?form)"
    by simp
  have a4: "contact_rules (fname (elements ?form ! 0)) =
              Some [RuleName ''required'', RuleObject ''minLength'' (Single 2)]"
    by (simp add: text_input_def contact_rules_name)
  have a5: "\<exists>r\<in>set [RuleName ''required'', RuleObject ''minLength'' (Single 2)].
              ruleName r = ''required''"
    by simp
  have a6: "\<not> list_ex rule_throws [RuleName ''required'', RuleObject ''minLength'' (Single 2)]"
    by (simp add: rule_throws_def get_property_def defaultRules_def)
  have a7: "String_trim (fvalue (elements ?form ! 0)) = []"
    by (simp add: text_input_def String_trim_def)
  have cond: "(\<forall>j<length (elements ?form). j \<noteq> 0 \<longrightarrow>
                 fname (elements ?form ! j) \<noteq> fname (elements ?form ! 0)) \<and>
              (\<forall>x. Input ''contact-form'' 0 x \<notin> set ?evs) \<and>
              (Reset_form ''contact-form'' \<in> set ?evs \<longrightarrow>
                 String_trim (defaultValue (elements ?form ! 0)) = [])"
    by (simp add: text_input_def String_trim_def less_Suc_eq)
  obtain msg calls m1 where v: "validateField ?m ''contact-form'' 0 = Inr (False, calls, m1)"
    and ne: "msg \<noteq> []"
    and run: "\<forall>evs. (\<forall>j<length (elements ?form). j \<noteq> 0 \<longrightarrow>
                     fname (elements ?form ! j) \<noteq> fname (elements ?form ! 0)) \<and>
                  (\<forall>x. Input ''contact-form'' 0 x \<notin> set evs) \<and>
                  (Reset_form ''contact-form'' \<in> set evs \<longrightarrow>
                     String_trim (defaultValue (elements ?form ! 0)) = []) \<longrightarrow>
              holds_error (form_run m1 evs) ''contact-form'' 0 msg \<and>
              (\<forall>x. fst (form_step (form_run m1 evs) (Input ''contact-form'' 0 x)) = None \<and>
                   holds_no_error (snd (form_step (form_run m1 evs) (Input ''contact-form'' 0 x)))
                     ''contact-form'' 0 x)"
    using required_blank_fails_until_input [OF a1 a2 a3 a4 a5 a6 a7] by blast
  have r: "holds_error (form_run m1 ?evs) ''contact-form'' 0 msg \<and>
           (\<forall>x. fst (form_step (form_run m1 ?evs) (Input ''contact-form'' 0 x)) = None \<and>
                holds_no_error (snd (form_step (form_run m1 ?evs) (Input ''contact-form'' 0 x)))
                  ''contact-form'' 0 x)"
    using run [rule_format, OF cond] .
  have "holds_error (form_run m1 ?evs) ''contact-form'' 0 msg"
    using r by (rule conjunct1)
  moreover have "holds_no_error
        (snd (form_step (form_run m1 ?evs) (Input ''contact-form'' 0 ''A'')))
        ''contact-form'' 0 ''A''"
    using conjunct2 [OF r, rule_format, of "''A''"] by (rule conjunct2)
  ultimately show ?thesis
    using a1 v ne contact_rules_name by blast
qed
end
